theory Spec2Isabelle
  imports Main "HOL-Library.Sublist"
begin

section \<open>The development hot reloader (packages/next/server/dev/hot-reloader.ts)\<close>

text \<open>
  The theory embeds the functions of \<^verbatim>\<open>hot-reloader.ts\<close>: the two helpers that write
  HTTP responses, the walk from a failing module to its entry module, the request gate
  (\<^verbatim>\<open>run\<close>, \<^verbatim>\<open>ensurePage\<close>, \<^verbatim>\<open>getCompilationErrors\<close>), the compiler hooks that
  \<^verbatim>\<open>start\<close> installs, the dynamic entry function and \<^verbatim>\<open>buildFallbackError\<close>.

  Conventions.
  \<^item> A JavaScript value that may be \<^verbatim>\<open>undefined\<close> or \<^verbatim>\<open>null\<close> is an \<open>option\<close>;
    the test \<^verbatim>\<open>if (v)\<close> on a string is \<open>truthy\<close>: the empty string is falsy.
  \<^item> A \<^verbatim>\<open>Set<string>\<close> is the list of its elements in insertion order, a
    \<^verbatim>\<open>Map\<close> that is iterated is an association list, a \<^verbatim>\<open>Map\<close> or object that is
    only looked up is a map \<open>string \<rightharpoonup> 'v\<close>.
  \<^item> The mutable object \<^verbatim>\<open>this\<close> is the record \<open>hot_reloader\<close>, passed in and
    returned; what the code publishes, logs and schedules is appended to its fields
    \<open>published\<close>, \<open>console\<close> and \<open>ensured\<close>.
  \<^item> Code that the file imports from other modules, and the built-ins of the platform,
    are the fields of the record \<open>env\<close>: every theorem holds for every value of them.
  \<^item> A call that may throw, or a promise that may be rejected, has a \<open>result\<close>:
    \<open>Returned\<close> the value or \<open>Threw\<close> what was thrown (\<open>settled\<close> where there is
    no value).
\<close>

subsection \<open>JavaScript values\<close>

definition truthy :: "string option \<Rightarrow> bool" where
  "truthy v = (case v of None \<Rightarrow> False | Some s \<Rightarrow> s \<noteq> [])"

text \<open>\<^verbatim>\<open>h || null\<close> on a string that may be undefined.\<close>

definition or_null :: "string option \<Rightarrow> string option" where
  "or_null v = (if truthy v then v else None)"

text \<open>\<^verbatim>\<open>a || b\<close> on two objects that may be null.\<close>

definition or_else :: "'a option \<Rightarrow> 'a option \<Rightarrow> 'a option" where
  "or_else a b = (case a of Some x \<Rightarrow> Some x | None \<Rightarrow> b)"

text \<open>\<^verbatim>\<open>xs.join(sep)\<close>.\<close>

fun join :: "string \<Rightarrow> string list \<Rightarrow> string" where
  "join sep [] = []"
| "join sep [x] = x"
| "join sep (x # y # ys) = x @ sep @ join sep (y # ys)"

text \<open>\<^verbatim>\<open>set.add(x)\<close> and \<^verbatim>\<open>new Set(xs)\<close> on a set kept in insertion order.\<close>

definition set_add :: "string \<Rightarrow> string list \<Rightarrow> string list" where
  "set_add x xs = (if x \<in> set xs then xs else xs @ [x])"

definition new_Set :: "string list \<Rightarrow> string list" where
  "new_Set xs = fold set_add xs []"

text \<open>
  An error object: its \<^verbatim>\<open>code\<close>, its \<^verbatim>\<open>stack\<close> and, for an error of the compiler,
  the address of the module it came from (\<^verbatim>\<open>error.module\<close>).
\<close>

record js_error =
  err_code :: "string option"
  err_stack :: string
  err_module :: "nat option"

text \<open>What is thrown, or what a promise is rejected with: an error object, any other
  value, the \<^verbatim>\<open>DecodeError\<close> the gate raises, or the \<^verbatim>\<open>RangeError\<close> of the engine
  when the call stack is exhausted.\<close>

datatype thrown = ErrorValue js_error | OtherValue string | DecodeError string | RangeError

datatype settled = Resolved | Rejected thrown

datatype 'a result = Returned 'a | Threw thrown

text \<open>\<^verbatim>\<open>isError(error) ? error : new Error(error + '')\<close>: the new error has no code.\<close>

definition toError :: "thrown \<Rightarrow> js_error" where
  "toError t =
     (case t of
        ErrorValue e \<Rightarrow> e
      | OtherValue s \<Rightarrow> \<lparr>err_code = None, err_stack = s, err_module = None\<rparr>
      | DecodeError s \<Rightarrow> \<lparr>err_code = None, err_stack = s, err_module = None\<rparr>
      | RangeError \<Rightarrow>
          \<lparr>err_code = None, err_stack = ''Maximum call stack size exceeded'',
           err_module = None\<rparr>)"

subsection \<open>Requests and responses\<close>

record request =
  req_url :: string
  req_method :: string
  req_headers :: "string \<rightharpoonup> string"

text \<open>\<open>res_ended\<close> is \<open>None\<close> until \<^verbatim>\<open>res.end(body)\<close> is called.\<close>

record response =
  res_headers :: "string \<rightharpoonup> string"
  statusCode :: nat
  res_ended :: "string option"

definition setHeader :: "response \<Rightarrow> string \<Rightarrow> string \<Rightarrow> response" where
  "setHeader res name v = res\<lparr>res_headers := (res_headers res)(name \<mapsto> v)\<rparr>"

definition writeHead :: "response \<Rightarrow> nat \<Rightarrow> response" where
  "writeHead res code = res\<lparr>statusCode := code\<rparr>"

definition end_response :: "response \<Rightarrow> string \<Rightarrow> response" where
  "end_response res body = res\<lparr>res_ended := Some body\<rparr>"

subsection \<open>Imported code and built-ins\<close>

text \<open>
  The regular expressions \<^verbatim>\<open>API_ROUTE\<close> and \<^verbatim>\<open>MIDDLEWARE_ROUTE\<close> (as the predicate
  "the string matches"), the list \<^verbatim>\<open>BLOCKED_PAGES\<close>, the route matcher behind
  \<^verbatim>\<open>matchNextPageBundleRequest\<close> (\<open>None\<close>: no match), \<^verbatim>\<open>decodeURIComponent\<close>
  (\<open>None\<close>: it throws), the path helpers, \<^verbatim>\<open>getRouteFromEntrypoint\<close> (\<open>None\<close>: null),
  \<^verbatim>\<open>fileExists\<close> and \<^verbatim>\<open>isFlightPage\<close>. \<open>stackFrames\<close> is the number of frames the
  call stack of the engine has left when \<^verbatim>\<open>erroredPages\<close> calls \<^verbatim>\<open>findEntryModule\<close>.
\<close>

record env =
  API_ROUTE :: "string \<Rightarrow> bool"
  MIDDLEWARE_ROUTE :: "string \<Rightarrow> bool"
  BLOCKED_PAGES :: "string list"
  matchNextPageBundleRequest :: "string \<Rightarrow> string list option"
  decodeURIComponent :: "string \<Rightarrow> string option"
  denormalizePagePath :: "string \<Rightarrow> string"
  normalizePathSep :: "string \<Rightarrow> string"
  getRouteFromEntrypoint :: "string \<Rightarrow> string option"
  fileExists :: "string \<Rightarrow> bool"
  isFlightPage :: "string \<Rightarrow> bool"
  stackFrames :: nat

subsection \<open>renderScriptError and addCorsSupport\<close>

text \<open>The result is the response and the lines written by \<^verbatim>\<open>console.error\<close>.\<close>

definition renderScriptError :: "response \<Rightarrow> js_error \<Rightarrow> bool \<Rightarrow> response \<times> string list" where
  "renderScriptError res error verbose =
     (let res1 = setHeader res ''Cache-Control'' ''no-cache, no-store, max-age=0, must-revalidate''
      in if err_code error = Some ''ENOENT''
         then (end_response (res1\<lparr>statusCode := 404\<rparr>) ''404 - Not Found'', [])
         else (end_response (res1\<lparr>statusCode := 500\<rparr>) ''500 - Internal Error'',
               if verbose then [err_stack error] else []))"

text \<open>The result is the response and the flag \<^verbatim>\<open>preflight\<close>.\<close>

definition addCorsSupport :: "env \<Rightarrow> request \<Rightarrow> response \<Rightarrow> response \<times> bool" where
  "addCorsSupport E req res =
     (if API_ROUTE E (req_url req) then (res, False)
      else case req_headers req ''origin'' of
        None \<Rightarrow> (res, False)
      | Some origin \<Rightarrow>
          if origin = [] then (res, False)
          else
            let res1 = setHeader res ''Access-Control-Allow-Origin'' origin;
                res2 = setHeader res1 ''Access-Control-Allow-Methods'' ''OPTIONS, GET'';
                res3 = (case req_headers req ''access-control-request-headers'' of
                          None \<Rightarrow> res2
                        | Some h \<Rightarrow>
                            if h = [] then res2
                            else setHeader res2 ''Access-Control-Allow-Headers'' h)
            in if req_method req = ''OPTIONS''
               then (end_response (writeHead res3 200) [], True)
               else (res3, False))"

subsection \<open>The compiler's results\<close>

text \<open>
  Modules are objects linked by their \<^verbatim>\<open>issuer\<close> field, so a compilation carries the
  module store as two lookups by address: \<open>issuerOf\<close> (\<open>None\<close>: no issuer) and
  \<open>moduleName\<close>. Nothing keeps the links acyclic. \<open>hasErrors\<close> is what
  \<^verbatim>\<open>stats.hasErrors()\<close> answers.
\<close>

record chunk =
  chunk_id :: string
  chunk_hash :: "string option"

record compilation =
  errors :: "js_error list"
  entrypoints :: "(string \<times> chunk list) list"
  namedChunks :: "(string \<times> chunk) list"
  issuerOf :: "nat \<Rightarrow> nat option"
  moduleName :: "nat \<Rightarrow> string option"

record stats =
  stats_compilation :: compilation
  hasErrors :: bool

subsection \<open>findEntryModule and erroredPages\<close>

text \<open>
  \<^verbatim>\<open>findEntryModule\<close> calls itself once for every issuer link, with no bound of its own.
  Each call takes a frame of the call stack, and the engine throws \<^verbatim>\<open>RangeError\<close> when
  no frame is left: the first argument is the number of frames left.
\<close>

primrec findEntryModule :: "nat \<Rightarrow> (nat \<Rightarrow> nat option) \<Rightarrow> nat \<Rightarrow> nat result" where
  "findEntryModule 0 issuer_of issuer = Threw RangeError"
| "findEntryModule (Suc frames) issuer_of issuer =
     (case issuer_of issuer of
        Some parent \<Rightarrow> findEntryModule frames issuer_of parent
      | None \<Rightarrow> Returned issuer)"

text \<open>The loop of \<^verbatim>\<open>erroredPages\<close> over \<^verbatim>\<open>compilation.errors\<close>; what a walk throws is
  not caught.\<close>

fun erroredPages_loop ::
  "env \<Rightarrow> compilation \<Rightarrow> js_error list \<Rightarrow> (string \<rightharpoonup> js_error list) \<Rightarrow>
   (string \<rightharpoonup> js_error list) result" where
  "erroredPages_loop E c [] failedPages = Returned failedPages"
| "erroredPages_loop E c (error # rest) failedPages =
     (case err_module error of
        None \<Rightarrow> erroredPages_loop E c rest failedPages
      | Some m \<Rightarrow>
          (case findEntryModule (stackFrames E) (issuerOf c) m of
             Threw err \<Rightarrow> Threw err
           | Returned entryModule \<Rightarrow>
               (case moduleName c entryModule of
                  None \<Rightarrow> erroredPages_loop E c rest failedPages
                | Some name \<Rightarrow>
                    if name = [] then erroredPages_loop E c rest failedPages
                    else
                      (case getRouteFromEntrypoint E name of
                         None \<Rightarrow> erroredPages_loop E c rest failedPages
                       | Some enhancedName \<Rightarrow>
                           if enhancedName = [] then erroredPages_loop E c rest failedPages
                           else erroredPages_loop E c rest
                                  (failedPages(enhancedName \<mapsto>
                                     (case failedPages enhancedName of
                                        None \<Rightarrow> []
                                      | Some es \<Rightarrow> es) @ [error]))))))"

definition erroredPages :: "env \<Rightarrow> compilation \<Rightarrow> (string \<rightharpoonup> js_error list) result" where
  "erroredPages E c = erroredPages_loop E c (errors c) Map.empty"

text \<open>
  The module reached from \<open>m\<close> after exactly \<open>n\<close> issuer links (\<open>None\<close> when the chain
  ends earlier), and whether a module without issuer is reached from \<open>m\<close> by a walk
  that has \<open>frames\<close> stack frames, that is after fewer than \<open>frames\<close> links. They are
  used to state what \<open>findEntryModule\<close> computes.
\<close>

fun issuerChain :: "(nat \<Rightarrow> nat option) \<Rightarrow> nat \<Rightarrow> nat \<Rightarrow> nat option" where
  "issuerChain issuer_of 0 m = Some m"
| "issuerChain issuer_of (Suc n) m =
     (case issuer_of m of None \<Rightarrow> None | Some parent \<Rightarrow> issuerChain issuer_of n parent)"

definition rootWithin :: "nat \<Rightarrow> (nat \<Rightarrow> nat option) \<Rightarrow> nat \<Rightarrow> bool" where
  "rootWithin frames issuer_of m =
     (\<exists>n < frames. \<exists>r. issuerChain issuer_of n m = Some r \<and> issuer_of r = None)"

subsection \<open>The hot reloader's state\<close>

text \<open>
  The fields of the class and, after them, the variables that \<^verbatim>\<open>start\<close> closes over
  (the two sets of changed pages and the two maps of page hashes). \<open>fallbackWatcher\<close>
  is whether that field is set; \<open>fallbackCompilers\<close> counts the fallback compilers
  constructed and started. \<open>onDemandEntries\<close> is the handler's \<^verbatim>\<open>ensurePage\<close>, when the
  handler exists: how the promise it returns settles. \<open>published\<close> are the messages
  handed to \<^verbatim>\<open>webpackHotMiddleware.publish\<close>, \<open>ensured\<close> the calls made to the
  handler. A middleware is assumed to call \<^verbatim>\<open>next\<close>, with an error or without.
\<close>

datatype hmr_message =
    Action string "string option list"
  | Event string "string list option"

datatype send_argument = Str string | Obj hmr_message

record hot_reloader =
  webServerRuntime :: bool
  hasServerComponents :: bool
  clientStats :: "stats option"
  serverStats :: "stats option"
  clientError :: "js_error option"
  serverError :: "js_error option"
  serverPrevDocumentHash :: "string option"
  prevChunkNames :: "string list option"
  onDemandEntries :: "(string \<Rightarrow> bool \<Rightarrow> settled) option"
  middlewares :: "(request \<Rightarrow> response \<Rightarrow> thrown option \<times> response) list"
  fallbackWatcher :: bool
  fallbackCompilers :: nat
  changedClientPages :: "string list"
  changedServerPages :: "string list"
  prevClientPageHashes :: "string \<rightharpoonup> string option"
  prevServerPageHashes :: "string \<rightharpoonup> string option"
  published :: "hmr_message list"
  console :: "string list"
  ensured :: "(string \<times> bool) list"

text \<open>\<^verbatim>\<open>send(action, ...args)\<close>: an object is published as it is, anything else as
  \<^verbatim>\<open>{action, data: args}\<close>.\<close>

definition send :: "hot_reloader \<Rightarrow> send_argument \<Rightarrow> string option list \<Rightarrow> hot_reloader" where
  "send this action args =
     this\<lparr>published := published this @
       [case action of Obj object \<Rightarrow> object | Str a \<Rightarrow> Action a args]\<rparr>"

text \<open>
  The constructor, with the closure variables as \<^verbatim>\<open>start\<close> creates them;
  \<open>concurrentFeatures\<close> and \<open>serverComponents\<close> are the two flags of
  \<^verbatim>\<open>config.experimental\<close> it reads.
\<close>

definition constructed :: "bool \<Rightarrow> bool \<Rightarrow> hot_reloader" where
  "constructed concurrentFeatures serverComponents =
     \<lparr>webServerRuntime = concurrentFeatures,
      hasServerComponents = (concurrentFeatures \<and> serverComponents),
      clientStats = None, serverStats = None, clientError = None, serverError = None,
      serverPrevDocumentHash = None, prevChunkNames = None, onDemandEntries = None,
      middlewares = [], fallbackWatcher = False, fallbackCompilers = 0,
      changedClientPages = [], changedServerPages = [],
      prevClientPageHashes = Map.empty, prevServerPageHashes = Map.empty,
      published = [], console = [], ensured = []\<rparr>"

subsection \<open>getCompilationErrors and ensurePage\<close>

text \<open>The two branches that read a target's stats share their body in the source; here it
  is \<open>errorsOfStats\<close>.\<close>

definition errorsOfStats :: "env \<Rightarrow> stats \<Rightarrow> string \<Rightarrow> js_error list result" where
  "errorsOfStats E st normalizedPage =
     (case erroredPages E (stats_compilation st) of
        Threw err \<Rightarrow> Threw err
      | Returned failedPages \<Rightarrow>
          (case failedPages normalizedPage of
             None \<Rightarrow> Returned (errors (stats_compilation st))
           | Some es \<Rightarrow>
               if length es > 0 then Returned es
               else Returned (errors (stats_compilation st))))"

definition getCompilationErrors :: "env \<Rightarrow> hot_reloader \<Rightarrow> string \<Rightarrow> js_error list result" where
  "getCompilationErrors E this page =
     (let normalizedPage = normalizePathSep E page;
          serverBranch =
            (case serverStats this of
               None \<Rightarrow> Returned []
             | Some st \<Rightarrow>
                 if hasErrors st then errorsOfStats E st normalizedPage else Returned [])
      in case or_else (clientError this) (serverError this) of
           Some fatal \<Rightarrow> Returned [fatal]
         | None \<Rightarrow>
             (case clientStats this of
                None \<Rightarrow> serverBranch
              | Some st \<Rightarrow>
                  if hasErrors st then errorsOfStats E st normalizedPage else serverBranch))"

definition ensurePage :: "env \<Rightarrow> hot_reloader \<Rightarrow> string \<Rightarrow> bool \<Rightarrow> settled \<times> hot_reloader" where
  "ensurePage E this page clientOnly =
     (if page \<noteq> ''/_error'' \<and> page \<in> set (BLOCKED_PAGES E) then (Resolved, this)
      else
        case (if clientOnly then clientError this
              else or_else (serverError this) (clientError this)) of
          Some error \<Rightarrow> (Rejected (ErrorValue error), this)
        | None \<Rightarrow>
            (case onDemandEntries this of
               None \<Rightarrow> (Resolved, this)
             | Some handler \<Rightarrow>
                 (handler page clientOnly,
                  this\<lparr>ensured := ensured this @ [(page, clientOnly)]\<rparr>)))"

subsection \<open>run and its page-bundle gate\<close>

text \<open>
  The result of the gate: \<open>Returned True\<close> is \<^verbatim>\<open>{ finished: true }\<close>, \<open>Returned False\<close>
  is \<^verbatim>\<open>{}\<close>, \<open>Threw\<close> a rejection, with the response and the state it leaves. The
  call of \<^verbatim>\<open>getCompilationErrors\<close> is outside the \<^verbatim>\<open>try\<close> block: what it throws
  rejects the gate.
\<close>

definition handlePageBundleRequest ::
  "env \<Rightarrow> hot_reloader \<Rightarrow> response \<Rightarrow> string \<Rightarrow> bool result \<times> response \<times> hot_reloader" where
  "handlePageBundleRequest E this pageBundleRes pathname =
     (case matchNextPageBundleRequest E pathname of
        None \<Rightarrow> (Returned False, pageBundleRes, this)
      | Some params \<Rightarrow>
          (case those (map (decodeURIComponent E) params) of
             None \<Rightarrow> (Threw (DecodeError ''failed to decode param''), pageBundleRes, this)
           | Some decoded \<Rightarrow>
               let decodedPagePath = ''/'' @ join ''/'' decoded;
                   page = denormalizePagePath E decodedPagePath
               in if page = ''/_error'' \<or> page \<notin> set (BLOCKED_PAGES E)
                  then
                    (case ensurePage E this page True of
                       (Rejected error, this1) \<Rightarrow>
                         (case renderScriptError pageBundleRes (toError error) True of
                            (res1, logs) \<Rightarrow>
                              (Returned True, res1, this1\<lparr>console := console this1 @ logs\<rparr>))
                     | (Resolved, this1) \<Rightarrow>
                         (case getCompilationErrors E this1 page of
                            Threw err \<Rightarrow> (Threw err, pageBundleRes, this1)
                          | Returned [] \<Rightarrow> (Returned False, pageBundleRes, this1)
                          | Returned (first # _) \<Rightarrow>
                              (case renderScriptError pageBundleRes first False of
                                 (res1, logs) \<Rightarrow>
                                   (Returned True, res1,
                                    this1\<lparr>console := console this1 @ logs\<rparr>))))
                  else (Returned False, pageBundleRes, this)))"

text \<open>The loop of \<^verbatim>\<open>run\<close> over \<^verbatim>\<open>this.middlewares\<close>: the first error rejects.\<close>

fun runMiddlewares ::
  "(request \<Rightarrow> response \<Rightarrow> thrown option \<times> response) list \<Rightarrow> request \<Rightarrow> response \<Rightarrow>
   thrown option \<times> response" where
  "runMiddlewares [] req res = (None, res)"
| "runMiddlewares (fn # fns) req res =
     (case fn req res of
        (Some err, res1) \<Rightarrow> (Some err, res1)
      | (None, res1) \<Rightarrow> runMiddlewares fns req res1)"

definition run ::
  "env \<Rightarrow> hot_reloader \<Rightarrow> request \<Rightarrow> response \<Rightarrow> string \<Rightarrow>
   bool result \<times> response \<times> hot_reloader" where
  "run E this req res pathname =
     (case addCorsSupport E req res of
        (res1, True) \<Rightarrow> (Returned False, res1, this)
      | (res1, False) \<Rightarrow>
          (case handlePageBundleRequest E this res1 pathname of
             (Threw err, res2, this1) \<Rightarrow> (Threw err, res2, this1)
           | (Returned finished, res2, this1) \<Rightarrow>
               (case runMiddlewares (middlewares this1) req res2 of
                  (Some err, res3) \<Rightarrow> (Threw err, res3, this1)
                | (None, res3) \<Rightarrow> (Returned finished, res3, this1))))"

subsection \<open>The compiler hooks installed by start\<close>

text \<open>\<^verbatim>\<open>pageHashMap.get(key)\<close>: undefined for a key that is absent, and for a key whose
  chunk had no hash.\<close>

definition getHash :: "(string \<rightharpoonup> string option) \<Rightarrow> string \<Rightarrow> string option" where
  "getHash pageHashMap key = (case pageHashMap key of None \<Rightarrow> None | Some h \<Rightarrow> h)"

text \<open>The inner loop of \<^verbatim>\<open>trackPageChanges\<close> over \<^verbatim>\<open>entry.chunks\<close>.\<close>

fun trackChunks ::
  "string \<Rightarrow> chunk list \<Rightarrow> (string \<rightharpoonup> string option) \<Rightarrow> string list \<Rightarrow>
   (string \<rightharpoonup> string option) \<times> string list" where
  "trackChunks key [] pageHashMap changedItems = (pageHashMap, changedItems)"
| "trackChunks key (c # cs) pageHashMap changedItems =
     (if chunk_id c = key
      then
        let prevHash = getHash pageHashMap key
        in trackChunks key cs (pageHashMap(key \<mapsto> chunk_hash c))
             (if truthy prevHash \<and> prevHash \<noteq> chunk_hash c
              then set_add key changedItems else changedItems)
      else trackChunks key cs pageHashMap changedItems)"

fun trackPageChanges ::
  "(string \<rightharpoonup> string option) \<Rightarrow> string list \<Rightarrow> (string \<times> chunk list) list \<Rightarrow>
   (string \<rightharpoonup> string option) \<times> string list" where
  "trackPageChanges pageHashMap changedItems [] = (pageHashMap, changedItems)"
| "trackPageChanges pageHashMap changedItems ((key, chunks) # rest) =
     (if prefix ''pages/'' key
      then (case trackChunks key chunks pageHashMap changedItems of
              (pageHashMap1, changedItems1) \<Rightarrow> trackPageChanges pageHashMap1 changedItems1 rest)
      else trackPageChanges pageHashMap changedItems rest)"

text \<open>The \<^verbatim>\<open>emit\<close> hooks of the client and of the server compiler.\<close>

definition clientEmit :: "hot_reloader \<Rightarrow> compilation \<Rightarrow> hot_reloader" where
  "clientEmit this c =
     (case trackPageChanges (prevClientPageHashes this) (changedClientPages this) (entrypoints c) of
        (hashes, changed) \<Rightarrow> this\<lparr>prevClientPageHashes := hashes, changedClientPages := changed\<rparr>)"

definition serverEmit :: "hot_reloader \<Rightarrow> compilation \<Rightarrow> hot_reloader" where
  "serverEmit this c =
     (case trackPageChanges (prevServerPageHashes this) (changedServerPages this) (entrypoints c) of
        (hashes, changed) \<Rightarrow> this\<lparr>prevServerPageHashes := hashes, changedServerPages := changed\<rparr>)"

text \<open>The \<^verbatim>\<open>failed\<close> and \<^verbatim>\<open>done\<close> hooks of the server compiler.\<close>

definition serverFailed :: "hot_reloader \<Rightarrow> js_error \<Rightarrow> hot_reloader" where
  "serverFailed this err = this\<lparr>serverError := Some err, serverStats := None\<rparr>"

definition serverDone :: "hot_reloader \<Rightarrow> stats \<Rightarrow> hot_reloader" where
  "serverDone this st =
     (let this1 = this\<lparr>serverError := None, serverStats := Some st\<rparr>
      in case map_of (namedChunks (stats_compilation st)) ''pages/_document'' of
           None \<Rightarrow> this1\<lparr>console := console this1 @ [''_document.js chunk not found'']\<rparr>
         | Some documentChunk \<Rightarrow>
             if serverPrevDocumentHash this1 = None
             then this1\<lparr>serverPrevDocumentHash := or_null (chunk_hash documentChunk)\<rparr>
             else if chunk_hash documentChunk = serverPrevDocumentHash this1 then this1
             else (send this1 (Str ''reloadPage'') [])
                    \<lparr>serverPrevDocumentHash := or_null (chunk_hash documentChunk)\<rparr>)"

text \<open>
  Modelled from the spec: \<^verbatim>\<open>difference\<close> is imported from build/utils, which is not among
  the sources. The spec has "serverOnlyChanges = serverChangedPages - clientChangedPages":
  the elements of the first set that are not in the second, as an array.
\<close>

definition difference :: "string list \<Rightarrow> string list \<Rightarrow> string list" where
  "difference main sub = filter (\<lambda>x. x \<notin> set sub) main"

text \<open>The \<^verbatim>\<open>done\<close> hook of the multi-compiler; \<^verbatim>\<open>pg.substr('pages'.length)\<close> drops
  five characters.\<close>

definition multiDone :: "env \<Rightarrow> hot_reloader \<Rightarrow> hot_reloader" where
  "multiDone E this =
     (let serverOnlyChanges = difference (changedServerPages this) (changedClientPages this);
          middlewareChanges = filter (MIDDLEWARE_ROUTE E) (changedClientPages this);
          this1 = this\<lparr>changedClientPages := [], changedServerPages := []\<rparr>;
          this2 = (if length middlewareChanges > 0
                   then send this1 (Obj (Event ''middlewareChanges'' None)) []
                   else this1)
      in if length serverOnlyChanges > 0
         then send this2
                (Obj (Event ''serverOnlyChanges''
                   (Some (map (\<lambda>pg. denormalizePagePath E (drop (length ''pages'') pg))
                            serverOnlyChanges)))) []
         else this2)"

text \<open>\<^verbatim>\<open>diff\<close>, the last function of the file.\<close>

definition diff :: "string list \<Rightarrow> string list \<Rightarrow> string list" where
  "diff a b = new_Set (filter (\<lambda>v. v \<notin> set b) a)"

text \<open>The \<^verbatim>\<open>failed\<close> and \<^verbatim>\<open>done\<close> hooks of the client compiler.\<close>

definition clientFailed :: "hot_reloader \<Rightarrow> js_error \<Rightarrow> hot_reloader" where
  "clientFailed this err = this\<lparr>clientError := Some err, clientStats := None\<rparr>"

definition clientDone :: "env \<Rightarrow> hot_reloader \<Rightarrow> stats \<Rightarrow> hot_reloader" where
  "clientDone E this st =
     (let this1 = this\<lparr>clientError := None, clientStats := Some st\<rparr>;
          chunkNames = new_Set (filter (\<lambda>name. truthy (getRouteFromEntrypoint E name))
                                  (map fst (namedChunks (stats_compilation st))));
          this2 =
            (case prevChunkNames this1 of
               None \<Rightarrow> this1
             | Some prev \<Rightarrow>
                 let addedPages = diff chunkNames prev;
                     removedPages = diff prev chunkNames;
                     this_added =
                       fold (\<lambda>addedPage t.
                               send t (Str ''addedPage'') [getRouteFromEntrypoint E addedPage])
                            addedPages this1
                 in fold (\<lambda>removedPage t.
                            send t (Str ''removedPage'') [getRouteFromEntrypoint E removedPage])
                         removedPages this_added)
      in this2\<lparr>prevChunkNames := Some chunkNames\<rparr>)"

subsection \<open>The dynamic entry function\<close>

text \<open>
  \<^verbatim>\<open>start\<close> replaces \<^verbatim>\<open>config.entry\<close> of each compiler configuration by a function
  that adds the entries of the registry \<^verbatim>\<open>entries\<close> of the on-demand entry handler to
  the entrypoints \<^verbatim>\<open>defaultEntry\<close> gives. The registry is an object keyed by page key,
  here an association list in the order of \<^verbatim>\<open>Object.keys\<close>. An entrypoint is kept as
  the argument of \<^verbatim>\<open>finalizeEntrypoint\<close>, its loader request as the loader and the
  options it is built from (\<open>StaticEntry\<close> stands for what \<^verbatim>\<open>defaultEntry\<close> built).
  \<^verbatim>\<open>ssrEntries\<close> maps a bundle path to \<^verbatim>\<open>requireFlightManifest\<close>.
\<close>

datatype entry_status = ADDED | BUILDING | BUILT

record entry_data =
  bundlePath :: string
  absolutePagePath :: string
  dispose :: bool
  status :: entry_status

datatype entry_request =
    StaticEntry string
  | MiddlewareLoader string string
  | ClientPagesLoader string string
  | MiddlewareSsrLoader string string bool
  | RelativeRequest string













subsection \<open>buildFallbackError\<close>

text \<open>
  \<^verbatim>\<open>buildFallbackError\<close> is asynchronous: it runs up to its first \<^verbatim>\<open>await\<close> when it is
  called, and each later stretch when the awaited promise resolves; other code runs in
  between. The three stretches are \<open>buildFallbackError_enter\<close> (the test of
  \<^verbatim>\<open>this.fallbackWatcher\<close>, up to the await of \<^verbatim>\<open>getBaseWebpackConfig\<close>) and the two
  cases of \<open>buildFallbackError_resume\<close> (the construction and start of the fallback
  compiler, up to the await of its first callback; then the assignment of
  \<^verbatim>\<open>this.fallbackWatcher\<close>). The awaited promises are assumed to resolve.
\<close>

datatype fallback_call = AwaitingConfig | AwaitingWatch | Settled

definition buildFallbackError_enter :: "hot_reloader \<Rightarrow> fallback_call \<times> hot_reloader" where
  "buildFallbackError_enter this =
     (if fallbackWatcher this then (Settled, this) else (AwaitingConfig, this))"

fun buildFallbackError_resume :: "fallback_call \<Rightarrow> hot_reloader \<Rightarrow> fallback_call \<times> hot_reloader" where
  "buildFallbackError_resume AwaitingConfig this =
     (AwaitingWatch, this\<lparr>fallbackCompilers := fallbackCompilers this + 1\<rparr>)"
| "buildFallbackError_resume AwaitingWatch this = (Settled, this\<lparr>fallbackWatcher := True\<rparr>)"
| "buildFallbackError_resume Settled this = (Settled, this)"

text \<open>A call that is awaited before anything else runs: the three stretches in a row.\<close>

definition buildFallbackError :: "hot_reloader \<Rightarrow> hot_reloader" where
  "buildFallbackError this =
     (case buildFallbackError_enter this of
        (call1, this1) \<Rightarrow>
          (case buildFallbackError_resume call1 this1 of
             (call2, this2) \<Rightarrow> snd (buildFallbackError_resume call2 this2)))"

text \<open>
  The event loop, as far as this method goes: \<open>Call\<close> is a new call of
  \<^verbatim>\<open>buildFallbackError\<close>, \<open>Resume i\<close> lets the \<open>i\<close>-th call made so far run its next
  stretch. The state is the calls in flight and the hot reloader.
\<close>

datatype fallback_event = Call | Resume nat

fun fallbackStep ::
  "fallback_event \<Rightarrow> fallback_call list \<times> hot_reloader \<Rightarrow> fallback_call list \<times> hot_reloader" where
  "fallbackStep Call (calls, this) =
     (case buildFallbackError_enter this of (c, this1) \<Rightarrow> (calls @ [c], this1))"
| "fallbackStep (Resume i) (calls, this) =
     (if i < length calls
      then (case buildFallbackError_resume (calls ! i) this of
              (c, this1) \<Rightarrow> (calls[i := c], this1))
      else (calls, this))"

definition fallbackRun ::
  "fallback_event list \<Rightarrow> fallback_call list \<times> hot_reloader \<Rightarrow> fallback_call list \<times> hot_reloader" where
  "fallbackRun events start = fold fallbackStep events start"

subsection \<open>Notions used to state the properties\<close>

text \<open>The messages published between two states.\<close>

definition newlyPublished :: "hot_reloader \<Rightarrow> hot_reloader \<Rightarrow> hmr_message list" where
  "newlyPublished before after = drop (length (published before)) (published after)"

text \<open>The page a bundle request asks for: the first lines of the gate (match, decode,
  denormalize). \<open>None\<close> when the path does not match or does not decode.\<close>

definition requestedPage :: "env \<Rightarrow> string \<Rightarrow> string option" where
  "requestedPage E pathname =
     (case matchNextPageBundleRequest E pathname of
        None \<Rightarrow> None
      | Some params \<Rightarrow>
          (case those (map (decodeURIComponent E) params) of
             None \<Rightarrow> None
           | Some decoded \<Rightarrow> Some (denormalizePagePath E (''/'' @ join ''/'' decoded))))"

text \<open>The plaintext error response for an error: caching disabled, 404 for the code
  \<^verbatim>\<open>ENOENT\<close> and 500 for any other.\<close>

definition isErrorResponse :: "js_error \<Rightarrow> response \<Rightarrow> bool" where
  "isErrorResponse error res =
     (res_headers res ''Cache-Control'' = Some ''no-cache, no-store, max-age=0, must-revalidate'' \<and>
      statusCode res = (if err_code error = Some ''ENOENT'' then 404 else 500) \<and>
      res_ended res =
        Some (if err_code error = Some ''ENOENT'' then ''404 - Not Found''
              else ''500 - Internal Error''))"

text \<open>The errors of a target's compilation that \<open>erroredPages\<close> attributes to a page.\<close>

definition attributedErrors :: "env \<Rightarrow> stats \<Rightarrow> string \<Rightarrow> js_error list result" where
  "attributedErrors E st page =
     (case erroredPages E (stats_compilation st) of
        Threw err \<Rightarrow> Threw err
      | Returned failedPages \<Rightarrow>
          Returned (case failedPages page of None \<Rightarrow> [] | Some es \<Rightarrow> es))"

text \<open>The set \<^verbatim>\<open>chunkNames\<close> of the client's done hook: the named chunks that resolve to
  a route.\<close>

definition routeChunkNames :: "env \<Rightarrow> stats \<Rightarrow> string list" where
  "routeChunkNames E st =
     new_Set (filter (\<lambda>name. truthy (getRouteFromEntrypoint E name))
                (map fst (namedChunks (stats_compilation st))))"

text \<open>The entrypoints of a compilation are a \<^verbatim>\<open>Map\<close> and the chunks of a compilation
  have distinct ids: no key twice, and at most one chunk of an entry has the key as id.\<close>

definition wellFormedEntrypoints :: "(string \<times> chunk list) list \<Rightarrow> bool" where
  "wellFormedEntrypoints eps =
     (distinct (map fst eps) \<and>
      list_all (\<lambda>kc. length (filter (\<lambda>c. chunk_id c = fst kc) (snd kc)) \<le> 1) eps)"

text \<open>The chunk of a page entry that \<^verbatim>\<open>trackPageChanges\<close> looks at: the key starts with
  \<^verbatim>\<open>pages/\<close> and the chunk has the key as id.\<close>

definition pageChunk :: "(string \<times> chunk list) list \<Rightarrow> string \<Rightarrow> chunk option" where
  "pageChunk eps key =
     (if prefix ''pages/'' key
      then (case map_of eps key of
              None \<Rightarrow> None
            | Some chunks \<Rightarrow> find (\<lambda>c. chunk_id c = key) chunks)
      else None)"

subsection \<open>A concrete environment for the closed examples\<close>

text \<open>
  The closed examples below need values for the imported code. These stand-ins follow
  the imported functions on the inputs the examples use: the API pattern matches
  \<^verbatim>\<open>/api\<close> and what is below it, the middleware pattern a path that ends in
  \<^verbatim>\<open>/_middleware\<close>; the matcher takes the segments between
  \<^verbatim>\<open>/_next/static/chunks/pages/\<close> and \<^verbatim>\<open>.js\<close>; decoding leaves a string without
  \<^verbatim>\<open>%\<close> as it is and fails on any other (the examples use the malformed escape
  \<^verbatim>\<open>%\<close> alone); an entrypoint \<^verbatim>\<open>pages/x\<close> has the route \<^verbatim>\<open>/x\<close>; the call
  stack has ten thousand frames left.
\<close>

fun split_on :: "char \<Rightarrow> string \<Rightarrow> string list" where
  "split_on c [] = [[]]"
| "split_on c (x # xs) =
     (if x = c then [] # split_on c xs
      else case split_on c xs of [] \<Rightarrow> [[x]] | w # ws \<Rightarrow> (x # w) # ws)"

definition example_denormalize :: "string \<Rightarrow> string" where
  "example_denormalize p =
     (if p = ''/index'' then ''/'' else if prefix ''/index/'' p then drop 6 p else p)"

definition example_env :: env where
  "example_env =
     \<lparr>API_ROUTE = (\<lambda>p. p = ''/api'' \<or> prefix ''/api/'' p),
      MIDDLEWARE_ROUTE = (\<lambda>p. suffix ''/_middleware'' p),
      BLOCKED_PAGES = [''/_document'', ''/_app'', ''/_error''],
      matchNextPageBundleRequest =
        (\<lambda>p. if prefix ''/_next/static/chunks/pages/'' p \<and> suffix ''.js'' p
             then Some (split_on (CHR ''/'') (take (length p - 30) (drop 27 p)))
             else None),
      decodeURIComponent = (\<lambda>s. if CHR ''%'' \<in> set s then None else Some s),
      denormalizePagePath = example_denormalize,
      normalizePathSep = (\<lambda>p. p),
      getRouteFromEntrypoint =
        (\<lambda>n. if prefix ''pages/'' n then Some (example_denormalize (drop 5 n)) else None),
      fileExists = (\<lambda>p. p = ''/app/pages/about.js'' \<or> p = ''/app/pages/api/hello.js''),
      isFlightPage = (\<lambda>p. False),
      stackFrames = 10000\<rparr>"

definition example_error :: "string \<Rightarrow> nat option \<Rightarrow> js_error" where
  "example_error msg m = \<lparr>err_code = None, err_stack = msg, err_module = m\<rparr>"

text \<open>A compilation whose only error comes from module 2, issued by module 1, issued by
  the entry module 0 of the page \<^verbatim>\<open>/about\<close>.\<close>

definition example_compilation :: compilation where
  "example_compilation =
     \<lparr>errors = [example_error ''Module not found'' (Some 2)],
      entrypoints = [],
      namedChunks = [],
      issuerOf = (\<lambda>m. if m = 2 then Some 1 else if m = 1 then Some 0 else None),
      moduleName = (\<lambda>m. if m = 0 then Some ''pages/about'' else None)\<rparr>"

text \<open>The same compilation with an issuer cycle: module 0 is issued by module 1 and
  module 1 by module 0.\<close>

definition cyclic_compilation :: compilation where
  "cyclic_compilation =
     example_compilation\<lparr>errors := [example_error ''Module not found'' (Some 0)],
                         issuerOf := (\<lambda>m. if m = 0 then Some 1 else Some 0)\<rparr>"

text \<open>A hot reloader whose client compilation is that one.\<close>

definition cyclic_reloader :: hot_reloader where
  "cyclic_reloader =
     (constructed False False)
       \<lparr>clientStats := Some \<lparr>stats_compilation = cyclic_compilation, hasErrors = True\<rparr>\<rparr>"

definition fresh_response :: response where
  "fresh_response = \<lparr>res_headers = Map.empty, statusCode = 200, res_ended = None\<rparr>"

text \<open>A preflight request and a \<^verbatim>\<open>GET\<close> request from another origin, a request
  without Origin header, and a preflight request whose Origin header is empty.\<close>

definition cross_origin_preflight :: request where
  "cross_origin_preflight =
     \<lparr>req_url = ''/_next/static/chunks/pages/about.js'', req_method = ''OPTIONS'',
      req_headers = [''origin'' \<mapsto> ''https://zone.example'']\<rparr>"

definition same_origin_request :: request where
  "same_origin_request =
     \<lparr>req_url = ''/_next/static/chunks/pages/about.js'', req_method = ''GET'',
      req_headers = Map.empty\<rparr>"

definition cross_origin_get :: request where
  "cross_origin_get =
     \<lparr>req_url = ''/_next/static/chunks/pages/about.js'', req_method = ''GET'',
      req_headers = [''origin'' \<mapsto> ''https://zone.example'']\<rparr>"

definition empty_origin_preflight :: request where
  "empty_origin_preflight =
     \<lparr>req_url = ''/_next/static/chunks/pages/about.js'', req_method = ''OPTIONS'',
      req_headers = [''origin'' \<mapsto> []]\<rparr>"

text \<open>Server stats whose only named chunk is the document chunk, with the given hash.\<close>

definition document_stats :: "string \<Rightarrow> stats" where
  "document_stats h =
     \<lparr>stats_compilation =
        \<lparr>errors = [], entrypoints = [],
         namedChunks = [(''pages/_document'', \<lparr>chunk_id = ''pages/_document'', chunk_hash = Some h\<rparr>)],
         issuerOf = (\<lambda>m. None), moduleName = (\<lambda>m. None)\<rparr>,
      hasErrors = False\<rparr>"

text \<open>A hot reloader whose client compiler failed, and one whose on-demand entry handler
  rejects every page as missing.\<close>

definition failing_reloader :: hot_reloader where
  "failing_reloader = (constructed False False)\<lparr>clientError := Some (example_error ''boom'' None)\<rparr>"

definition missing_page_reloader :: hot_reloader where
  "missing_page_reloader =
     (constructed False False)
       \<lparr>onDemandEntries := Some (\<lambda>page clientOnly.
          Rejected (ErrorValue \<lparr>err_code = Some ''ENOENT'', err_stack = ''page not found'',
                                err_module = None\<rparr>))\<rparr>"

text \<open>A middleware that marks the response and calls \<^verbatim>\<open>next\<close>, and a hot reloader with
  that middleware whose client compiler failed.\<close>

definition marking_middleware :: "request \<Rightarrow> response \<Rightarrow> thrown option \<times> response" where
  "marking_middleware req res = (None, setHeader res ''X-Seen'' ''1'')"

definition watched_reloader :: hot_reloader where
  "watched_reloader = failing_reloader\<lparr>middlewares := [marking_middleware]\<rparr>"

text \<open>A hot reloader whose on-demand entry handler resolves for every page.\<close>

definition idle_reloader :: hot_reloader where
  "idle_reloader =
     (constructed False False)\<lparr>onDemandEntries := Some (\<lambda>page clientOnly. Resolved)\<rparr>"

text \<open>Stats with one error, from module 1, issued by the entry module 0 of the given
  name; and a hot reloader whose client compilation has an error of the page \<^verbatim>\<open>/a\<close> and
  whose server compilation has an error of the page \<^verbatim>\<open>/b\<close>.\<close>

definition page_error_stats :: "string \<Rightarrow> string \<Rightarrow> stats" where
  "page_error_stats name msg =
     \<lparr>stats_compilation =
        \<lparr>errors = [example_error msg (Some 1)], entrypoints = [], namedChunks = [],
         issuerOf = (\<lambda>m. if m = 1 then Some 0 else None),
         moduleName = (\<lambda>m. if m = 0 then Some name else None)\<rparr>,
      hasErrors = True\<rparr>"

definition both_targets_failing :: hot_reloader where
  "both_targets_failing =
     (constructed False False)
       \<lparr>clientStats := Some (page_error_stats ''pages/a'' ''client error in a''),
        serverStats := Some (page_error_stats ''pages/b'' ''server error in b'')\<rparr>"

text \<open>A compilation with one entrypoint, one chunk and one named chunk for each of the
  given pages and hashes; and one pass of the client compiler that succeeds: its emit
  hook, then its done hook.\<close>

definition page_compilation :: "(string \<times> string) list \<Rightarrow> compilation" where
  "page_compilation pages =
     \<lparr>errors = [],
      entrypoints = map (\<lambda>kh. (fst kh, [\<lparr>chunk_id = fst kh, chunk_hash = Some (snd kh)\<rparr>])) pages,
      namedChunks = map (\<lambda>kh. (fst kh, \<lparr>chunk_id = fst kh, chunk_hash = Some (snd kh)\<rparr>)) pages,
      issuerOf = (\<lambda>m. None), moduleName = (\<lambda>m. None)\<rparr>"

definition clientPass :: "env \<Rightarrow> hot_reloader \<Rightarrow> compilation \<Rightarrow> hot_reloader" where
  "clientPass E this c =
     clientDone E (clientEmit this c) \<lparr>stats_compilation = c, hasErrors = False\<rparr>"




section \<open>Properties\<close>

subsection \<open>The page-bundle gate, case by case\<close>

lemma renderScriptError_isErrorResponse:
  "isErrorResponse error (fst (renderScriptError res error verbose))"
  by (simp add: isErrorResponse_def renderScriptError_def setHeader_def end_response_def Let_def)

lemma renderScriptError_other_headers:
  "name \<noteq> ''Cache-Control'' \<Longrightarrow>
   res_headers (fst (renderScriptError res error verbose)) name = res_headers res name"
  by (simp add: renderScriptError_def setHeader_def end_response_def Let_def)

lemma renderScriptError_quiet: "snd (renderScriptError res error False) = []"
  by (simp add: renderScriptError_def Let_def)

lemma ensurePage_middlewares:
  "middlewares (snd (ensurePage E this page clientOnly)) = middlewares this"
  by (simp add: ensurePage_def split: option.splits)

lemma gate_no_match:
  "matchNextPageBundleRequest E pathname = None \<Longrightarrow>
   handlePageBundleRequest E this res pathname = (Returned False, res, this)"
  by (simp add: handlePageBundleRequest_def)

lemma gate_decode_error:
  "matchNextPageBundleRequest E pathname = Some params \<Longrightarrow>
   those (map (decodeURIComponent E) params) = None \<Longrightarrow>
   handlePageBundleRequest E this res pathname =
     (Threw (DecodeError ''failed to decode param''), res, this)"
  by (simp add: handlePageBundleRequest_def)

lemma requestedPage_SomeD:
  "requestedPage E pathname = Some page \<Longrightarrow>
   \<exists>params decoded. matchNextPageBundleRequest E pathname = Some params \<and>
     those (map (decodeURIComponent E) params) = Some decoded \<and>
     page = denormalizePagePath E (''/'' @ join ''/'' decoded)"
  by (auto simp: requestedPage_def split: option.splits)

lemma gate_unrequested:
  "requestedPage E pathname = None \<Longrightarrow>
   snd (handlePageBundleRequest E this res pathname) = (res, this)"
  by (auto simp: handlePageBundleRequest_def requestedPage_def split: option.splits)

lemma gate_blocked:
  assumes "requestedPage E pathname = Some page" and "page \<noteq> ''/_error''"
    and "page \<in> set (BLOCKED_PAGES E)"
  shows "handlePageBundleRequest E this res pathname = (Returned False, res, this)"
proof -
  from requestedPage_SomeD[OF assms(1)] obtain params decoded where
    m: "matchNextPageBundleRequest E pathname = Some params" and
    d: "those (map (decodeURIComponent E) params) = Some decoded" and
    p: "page = denormalizePagePath E (''/'' @ join ''/'' decoded)" by blast
  from p have p': "denormalizePagePath E (CHR ''/'' # join ''/'' decoded) = page" by simp
  show ?thesis
    unfolding handlePageBundleRequest_def using assms(2,3)
    by (simp add: m d p' Let_def)
qed

lemma gate_checked:
  assumes "requestedPage E pathname = Some page"
    and "page = ''/_error'' \<or> page \<notin> set (BLOCKED_PAGES E)"
  shows "handlePageBundleRequest E this res pathname =
     (case ensurePage E this page True of
        (Rejected error, this1) \<Rightarrow>
          (Returned True, fst (renderScriptError res (toError error) True),
                this1\<lparr>console := console this1 @ snd (renderScriptError res (toError error) True)\<rparr>)
      | (Resolved, this1) \<Rightarrow>
          (case getCompilationErrors E this1 page of
             Threw x \<Rightarrow> (Threw x, res, this1)
           | Returned [] \<Rightarrow> (Returned False, res, this1)
           | Returned (first # rest) \<Rightarrow>
               (Returned True, fst (renderScriptError res first False), this1)))"
proof -
  from requestedPage_SomeD[OF assms(1)] obtain params decoded where
    m: "matchNextPageBundleRequest E pathname = Some params" and
    d: "those (map (decodeURIComponent E) params) = Some decoded" and
    p: "page = denormalizePagePath E (''/'' @ join ''/'' decoded)" by blast
  obtain s this1 where ep: "ensurePage E this page True = (s, this1)"
    by (cases "ensurePage E this page True")
  have body: "handlePageBundleRequest E this res pathname =
     (case ensurePage E this page True of
        (Rejected error, this1) \<Rightarrow>
          (case renderScriptError res (toError error) True of
             (res1, logs) \<Rightarrow> (Returned True, res1, this1\<lparr>console := console this1 @ logs\<rparr>))
      | (Resolved, this1) \<Rightarrow>
          (case getCompilationErrors E this1 page of
             Threw x \<Rightarrow> (Threw x, res, this1)
           | Returned [] \<Rightarrow> (Returned False, res, this1)
           | Returned (first # rest) \<Rightarrow>
               (case renderScriptError res first False of
                  (res1, logs) \<Rightarrow> (Returned True, res1, this1\<lparr>console := console this1 @ logs\<rparr>))))"
    unfolding handlePageBundleRequest_def p append.simps using assms(2)[unfolded p append.simps]
    by (simp add: m d Let_def)
  show ?thesis
  proof (cases s)
    case Resolved
    show ?thesis
    proof (cases "getCompilationErrors E this1 page")
      case (Threw x)
      then show ?thesis unfolding body by (simp add: ep Resolved)
    next
      case (Returned es)
      then show ?thesis unfolding body
        by (cases es) (simp_all add: ep Resolved case_prod_beta renderScriptError_quiet)
    qed
  next
    case (Rejected err)
    then show ?thesis unfolding body by (simp add: ep case_prod_beta)
  qed
qed

lemma gate_throws:
  assumes "requestedPage E pathname = Some page"
    and "page = ''/_error'' \<or> page \<notin> set (BLOCKED_PAGES E)"
    and "ensurePage E this page True = (Resolved, this1)"
    and "getCompilationErrors E this1 page = Threw x"
  shows "handlePageBundleRequest E this res pathname = (Threw x, res, this1)"
  unfolding gate_checked[OF assms(1,2)] by (simp add: assms(3,4))

lemma gate_other_headers:
  assumes "name \<noteq> ''Cache-Control''"
  shows "res_headers (fst (snd (handlePageBundleRequest E this res pathname))) name
    = res_headers res name"
proof (cases "requestedPage E pathname")
  case None
  then show ?thesis by (simp add: gate_unrequested)
next
  case (Some page)
  show ?thesis
  proof (cases "page = ''/_error'' \<or> page \<notin> set (BLOCKED_PAGES E)")
    case False
    then show ?thesis using gate_blocked[OF Some, of this res] by auto
  next
    case True
    obtain s this1 where ep: "ensurePage E this page True = (s, this1)"
      by (cases "ensurePage E this page True")
    show ?thesis
    proof (cases s)
      case Resolved
      then show ?thesis
        unfolding gate_checked[OF Some True] using ep assms
        by (cases "getCompilationErrors E this1 page")
           (auto simp: renderScriptError_other_headers split: list.splits)
    next
      case (Rejected err)
      then show ?thesis
        unfolding gate_checked[OF Some True] using ep assms
        by (auto simp: renderScriptError_other_headers)
    qed
  qed
qed

lemma gate_middlewares:
  "middlewares (snd (snd (handlePageBundleRequest E this res pathname))) = middlewares this"
proof (cases "requestedPage E pathname")
  case None
  then show ?thesis by (simp add: gate_unrequested)
next
  case (Some page)
  show ?thesis
  proof (cases "page = ''/_error'' \<or> page \<notin> set (BLOCKED_PAGES E)")
    case False
    then show ?thesis using gate_blocked[OF Some, of this res] by auto
  next
    case True
    obtain s this1 where ep: "ensurePage E this page True = (s, this1)"
      by (cases "ensurePage E this page True")
    have mw: "middlewares this1 = middlewares this"
      using ensurePage_middlewares[of E this page True] by (simp add: ep)
    show ?thesis
    proof (cases s)
      case Resolved
      then show ?thesis
        unfolding gate_checked[OF Some True] using ep mw
        by (cases "getCompilationErrors E this1 page") (auto split: list.splits)
    next
      case (Rejected err)
      then show ?thesis
        unfolding gate_checked[OF Some True] using ep mw by auto
    qed
  qed
qed

lemma runMiddlewares_preserves:
  "(\<forall>fn \<in> set fns. \<forall>rq r. res_headers (snd (fn rq r)) name = res_headers r name) \<Longrightarrow>
   res_headers (snd (runMiddlewares fns req res)) name = res_headers res name"
proof (induction fns arbitrary: res)
  case Nil
  show ?case by simp
next
  case (Cons fn fns)
  obtain e res1 where step: "fn req res = (e, res1)" by (cases "fn req res")
  from Cons.prems have h: "res_headers (snd (fn req res)) name = res_headers res name"
    by simp
  show ?case
  proof (cases e)
    case None
    then show ?thesis using Cons.IH[of res1] Cons.prems h step by simp
  next
    case (Some err)
    then show ?thesis using h step by simp
  qed
qed

lemma run_through:
  "snd (addCorsSupport E req res) = False \<Longrightarrow>
   run E this req res pathname =
     (case handlePageBundleRequest E this (fst (addCorsSupport E req res)) pathname of
        (Threw err, res2, this1) \<Rightarrow> (Threw err, res2, this1)
      | (Returned finished, res2, this1) \<Rightarrow>
          (case runMiddlewares (middlewares this1) req res2 of
             (Some err, res3) \<Rightarrow> (Threw err, res3, this1)
           | (None, res3) \<Rightarrow> (Returned finished, res3, this1)))"
  by (cases "addCorsSupport E req res") (simp add: run_def)

lemma run_headers:
  assumes "snd (addCorsSupport E req res) = False"
    and "name \<noteq> ''Cache-Control''"
    and "\<forall>fn \<in> set (middlewares this). \<forall>rq r.
           res_headers (snd (fn rq r)) name = res_headers r name"
  shows "res_headers (fst (snd (run E this req res pathname))) name
    = res_headers (fst (addCorsSupport E req res)) name"
proof -
  let ?cors = "fst (addCorsSupport E req res)"
  obtain out res2 this1 where
    g: "handlePageBundleRequest E this ?cors pathname = (out, res2, this1)"
    by (cases "handlePageBundleRequest E this ?cors pathname") auto
  have h2: "res_headers res2 name = res_headers ?cors name"
    using gate_other_headers[OF assms(2), of E this ?cors pathname] by (simp add: g)
  have mw: "middlewares this1 = middlewares this"
    using gate_middlewares[of E this ?cors pathname] by (simp add: g)
  show ?thesis
  proof (cases out)
    case (Threw err)
    then show ?thesis unfolding run_through[OF assms(1)] using g h2 by simp
  next
    case (Returned finished)
    obtain e res3 where m: "runMiddlewares (middlewares this1) req res2 = (e, res3)"
      by (cases "runMiddlewares (middlewares this1) req res2")
    have "res_headers res3 name = res_headers res2 name"
      using runMiddlewares_preserves[of "middlewares this1" name req res2] assms(3) mw m
      by simp
    then show ?thesis
      unfolding run_through[OF assms(1)] using g h2 m Returned by (cases e) simp_all
  qed
qed

lemma rp_app: "requestedPage example_env ''/_next/static/chunks/pages/_app.js'' = Some ''/_app''"
  by (simp add: requestedPage_def example_env_def example_denormalize_def suffix_to_prefix)

lemma rp_error: "requestedPage example_env ''/_next/static/chunks/pages/_error.js'' = Some ''/_error''"
  by (simp add: requestedPage_def example_env_def example_denormalize_def suffix_to_prefix)

lemma rp_about: "requestedPage example_env ''/_next/static/chunks/pages/about.js'' = Some ''/about''"
  by (simp add: requestedPage_def example_env_def example_denormalize_def suffix_to_prefix)

subsection \<open>The walk to the entry module\<close>

lemma findEntryModule_numeral:
  "findEntryModule (numeral k) f m =
     (case f m of
        Some parent \<Rightarrow> findEntryModule (pred_numeral k) f parent
      | None \<Rightarrow> Returned m)"
  by (simp add: numeral_eq_Suc)

lemma findEntryModule_Returned_iff:
  "findEntryModule frames f m = Returned r \<longleftrightarrow>
   (\<exists>n < frames. issuerChain f n m = Some r \<and> f r = None)"
proof (induction frames arbitrary: m)
  case 0
  show ?case by simp
next
  case (Suc frames)
  show ?case
  proof (cases "f m")
    case None
    then show ?thesis by (auto simp: Ex_less_Suc2)
  next
    case (Some p)
    then show ?thesis using Suc.IH[of p] by (auto simp: Ex_less_Suc2)
  qed
qed

lemma findEntryModule_Threw: "findEntryModule frames f m = Threw x \<Longrightarrow> x = RangeError"
  by (induction frames arbitrary: m) (auto split: option.splits)

lemma findEntryModule_RangeError_iff:
  "findEntryModule frames f m = Threw RangeError \<longleftrightarrow> \<not> rootWithin frames f m"
proof (cases "findEntryModule frames f m")
  case (Returned r)
  then show ?thesis
    unfolding rootWithin_def using findEntryModule_Returned_iff[of frames f m r] by auto
next
  case (Threw x)
  then have "x = RangeError" by (rule findEntryModule_Threw)
  moreover have "\<not> rootWithin frames f m"
    unfolding rootWithin_def using Threw findEntryModule_Returned_iff[of frames f m] by auto
  ultimately show ?thesis using Threw by simp
qed

lemma findEntryModule_no_root:
  "(\<And>k. f k \<noteq> None) \<Longrightarrow> findEntryModule frames f m = Threw RangeError"
  by (induction frames arbitrary: m) (auto split: option.splits)

lemma cyclic_compilation_pages: "erroredPages E cyclic_compilation = Threw RangeError"
proof -
  have "findEntryModule frames (issuerOf cyclic_compilation) m = Threw RangeError" for frames m
    by (rule findEntryModule_no_root) (simp add: cyclic_compilation_def)
  moreover have "errors cyclic_compilation = [example_error ''Module not found'' (Some 0)]"
    by (simp add: cyclic_compilation_def)
  ultimately show ?thesis by (simp add: erroredPages_def example_error_def)
qed

lemma cyclic_reloader_errors: "getCompilationErrors E cyclic_reloader page = Threw RangeError"
  using cyclic_compilation_pages[of E]
  by (simp add: getCompilationErrors_def errorsOfStats_def cyclic_reloader_def
      constructed_def or_else_def Let_def)

lemma cyclic_reloader_ensurePage:
  "ensurePage example_env cyclic_reloader ''/about'' True = (Resolved, cyclic_reloader)"
  by (simp add: ensurePage_def cyclic_reloader_def constructed_def example_env_def)

lemma issuerChain_deep:
  "m + n \<le> d \<Longrightarrow> issuerChain (\<lambda>k. if k < d then Some (Suc k) else None) n m = Some (m + n)"
  by (induction n arbitrary: m) auto

lemma findEntryModule_deep_returns:
  "findEntryModule (Suc d) (\<lambda>k. if k < d then Some (Suc k) else None) 0 = Returned d"
proof -
  have "issuerChain (\<lambda>k. if k < d then Some (Suc k) else None) d 0 = Some (0 + d)"
    by (rule issuerChain_deep) simp
  then show ?thesis
    unfolding findEntryModule_Returned_iff by (intro exI[of _ d]) simp
qed

lemma findEntryModule_deep_throws:
  assumes "frames \<le> d"
  shows "findEntryModule frames (\<lambda>k. if k < d then Some (Suc k) else None) 0 = Threw RangeError"
proof -
  have "\<not> rootWithin frames (\<lambda>k. if k < d then Some (Suc k) else None) 0"
    unfolding rootWithin_def
  proof (intro notI, elim exE conjE)
    fix n r
    assume n: "n < frames"
      and chain: "issuerChain (\<lambda>k. if k < d then Some (Suc k) else None) n 0 = Some r"
      and root: "(if r < d then Some (Suc r) else None) = None"
    from n assms have "0 + n \<le> d" by simp
    from issuerChain_deep[OF this] chain have "r = n" by simp
    with n assms root show False by simp
  qed
  then show ?thesis by (simp add: findEntryModule_RangeError_iff)
qed

lemma erroredPages_loop_Threw:
  "erroredPages_loop E c es failedPages = Threw x \<Longrightarrow> x = RangeError"
proof (induction es arbitrary: failedPages)
  case Nil
  then show ?case by simp
next
  case (Cons e es)
  show ?case
  proof (cases "err_module e")
    case None
    then show ?thesis using Cons.prems Cons.IH[of failedPages] by simp
  next
    case (Some m)
    show ?thesis
    proof (cases "findEntryModule (stackFrames E) (issuerOf c) m")
      case (Threw y)
      then have "y = RangeError" by (rule findEntryModule_Threw)
      then show ?thesis using Cons.prems Threw \<open>err_module e = Some m\<close> by simp
    next
      case (Returned r)
      have "\<exists>fp'. erroredPages_loop E c (e # es) failedPages = erroredPages_loop E c es fp'"
        using Returned \<open>err_module e = Some m\<close> by (auto split: option.splits)
      then obtain fp' where
        "erroredPages_loop E c (e # es) failedPages = erroredPages_loop E c es fp'" ..
      then show ?thesis using Cons.prems Cons.IH[of fp'] by simp
    qed
  qed
qed

lemma erroredPages_loop_returns:
  "(\<exists>fp. erroredPages_loop E c es failedPages = Returned fp) \<longleftrightarrow>
   (\<forall>e \<in> set es. \<forall>m. err_module e = Some m \<longrightarrow> rootWithin (stackFrames E) (issuerOf c) m)"
proof (induction es arbitrary: failedPages)
  case Nil
  show ?case by simp
next
  case (Cons e es)
  show ?case
  proof (cases "err_module e")
    case None
    then show ?thesis using Cons.IH[of failedPages] by simp
  next
    case (Some m)
    show ?thesis
    proof (cases "findEntryModule (stackFrames E) (issuerOf c) m")
      case (Threw y)
      then have "y = RangeError" by (rule findEntryModule_Threw)
      with Threw have nr: "\<not> rootWithin (stackFrames E) (issuerOf c) m"
        by (simp add: findEntryModule_RangeError_iff)
      have "erroredPages_loop E c (e # es) failedPages = Threw y"
        using Threw \<open>err_module e = Some m\<close> by simp
      with nr \<open>err_module e = Some m\<close> show ?thesis by auto
    next
      case (Returned r)
      then have hr: "rootWithin (stackFrames E) (issuerOf c) m"
        using findEntryModule_RangeError_iff[of "stackFrames E" "issuerOf c" m] by simp
      have "\<exists>fp'. erroredPages_loop E c (e # es) failedPages = erroredPages_loop E c es fp'"
        using Returned \<open>err_module e = Some m\<close> by (auto split: option.splits)
      then obtain fp' where
        step: "erroredPages_loop E c (e # es) failedPages = erroredPages_loop E c es fp'" ..
      show ?thesis
        unfolding step using hr \<open>err_module e = Some m\<close> Cons.IH[of fp'] by simp
    qed
  qed
qed

lemma erroredPages_RangeError_iff:
  "erroredPages E c = Threw RangeError \<longleftrightarrow>
   \<not> (\<forall>e \<in> set (errors c). \<forall>m. err_module e = Some m \<longrightarrow>
        rootWithin (stackFrames E) (issuerOf c) m)"
proof (cases "erroredPages E c")
  case (Returned fp)
  then show ?thesis
    unfolding erroredPages_def
    using erroredPages_loop_returns[of E c "errors c" Map.empty] by auto
next
  case (Threw x)
  then have "x = RangeError" unfolding erroredPages_def by (rule erroredPages_loop_Threw)
  then show ?thesis
    using Threw unfolding erroredPages_def
    using erroredPages_loop_returns[of E c "errors c" Map.empty] by auto
qed

text \<open>
  Claim C7, as amended. The walk of \<open>findEntryModule\<close> has no depth guard of its own: it
  is a plain recursion that takes one frame of the call stack for every module it
  visits, so what bounds it is the stack the engine has left, not a maximum fixed by the
  program. With \<open>frames\<close> frames left it returns the module \<open>r\<close> exactly when \<open>r\<close> has
  no issuer and is reached from the failing module after fewer than \<open>frames\<close> issuer
  links; otherwise (a cycle, a chain longer than the stack) the engine throws
  \<^verbatim>\<open>RangeError\<close>, and nothing else is ever thrown. A chain of \<open>d\<close> links is walked to its
  end with \<open>d + 1\<close> frames and overflows the stack with \<open>d\<close> frames or fewer.
  \<open>erroredPages\<close> does not catch the error: it returns an attribution exactly when the
  module of every error has a root within the stack, and throws \<^verbatim>\<open>RangeError\<close>
  otherwise; reading the errors of such stats throws it too.
\<close>

theorem findEntryModule_unguarded_walk:
  "(findEntryModule frames issuer_of m = Returned r \<longleftrightarrow>
      (\<exists>n < frames. issuerChain issuer_of n m = Some r \<and> issuer_of r = None)) \<and>
   (findEntryModule frames issuer_of m = Threw RangeError \<longleftrightarrow>
      \<not> rootWithin frames issuer_of m) \<and>
   (findEntryModule frames issuer_of m = Threw x \<longrightarrow> x = RangeError) \<and>
   findEntryModule (Suc d) (\<lambda>k. if k < d then Some (Suc k) else None) 0 = Returned d \<and>
   (frames \<le> d \<longrightarrow>
      findEntryModule frames (\<lambda>k. if k < d then Some (Suc k) else None) 0 = Threw RangeError) \<and>
   ((\<exists>failedPages. erroredPages E c = Returned failedPages) \<longleftrightarrow>
      (\<forall>e \<in> set (errors c). \<forall>m'. err_module e = Some m' \<longrightarrow>
         rootWithin (stackFrames E) (issuerOf c) m')) \<and>
   (erroredPages E c = Threw RangeError \<longleftrightarrow>
      \<not> (\<forall>e \<in> set (errors c). \<forall>m'. err_module e = Some m' \<longrightarrow>
           rootWithin (stackFrames E) (issuerOf c) m')) \<and>
   (erroredPages E (stats_compilation st) = Threw RangeError \<longrightarrow>
      errorsOfStats E st page = Threw RangeError)"
  (is "?ret \<and> ?thr \<and> ?only \<and> ?deep \<and> ?over \<and> ?pages \<and> ?pagesThr \<and> ?stats")
proof (intro conjI)
  show ?ret by (rule findEntryModule_Returned_iff)
  show ?thr by (rule findEntryModule_RangeError_iff)
  show ?only using findEntryModule_Threw by blast
  show ?deep by (rule findEntryModule_deep_returns)
  show ?over using findEntryModule_deep_throws by blast
  show ?pages
    unfolding erroredPages_def by (rule erroredPages_loop_returns)
  show ?pagesThr by (rule erroredPages_RangeError_iff)
  show ?stats by (simp add: errorsOfStats_def)
qed

theorem findEntryModule_unguarded_walk_witness:
  "rootWithin (stackFrames example_env) (issuerOf example_compilation) 2 \<and>
   findEntryModule (stackFrames example_env) (issuerOf example_compilation) 2 = Returned 0 \<and>
   (\<exists>failedPages. erroredPages example_env example_compilation = Returned failedPages) \<and>
   findEntryModule 2 (issuerOf example_compilation) 2 = Threw RangeError \<and>
   findEntryModule (Suc 5) (\<lambda>k. if k < 5 then Some (Suc k) else None) 0 = Returned 5 \<and>
   findEntryModule 5 (\<lambda>k. if k < 5 then Some (Suc k) else None) 0 = Threw RangeError \<and>
   erroredPages example_env cyclic_compilation = Threw RangeError \<and>
   errorsOfStats example_env \<lparr>stats_compilation = cyclic_compilation, hasErrors = True\<rparr>
     ''/about'' = Threw RangeError"
  (is "?root \<and> ?walk \<and> ?pages \<and> ?short \<and> ?deep \<and> ?over \<and> ?cyc \<and> ?stats")
proof -
  let ?f = "issuerOf example_compilation"
  let ?st = "\<lparr>stats_compilation = cyclic_compilation, hasErrors = True\<rparr>"
  have frames: "stackFrames example_env = 10000" by (simp add: example_env_def)
  have chain: "2 < stackFrames example_env \<and> issuerChain ?f 2 2 = Some 0 \<and> ?f 0 = None"
    by (simp add: example_compilation_def numeral_2_eq_2 frames)
  then have root: ?root unfolding rootWithin_def by blast
  have all: "\<forall>e \<in> set (errors example_compilation). \<forall>m'. err_module e = Some m' \<longrightarrow>
      rootWithin (stackFrames example_env) ?f m'"
    using root by (simp add: example_compilation_def example_error_def)
  have no_root2: "\<not> rootWithin 2 ?f 2"
    unfolding rootWithin_def numeral_2_eq_2
    by (simp add: Ex_less_Suc2 example_compilation_def)
  have cyc_no_root:
    "\<not> rootWithin (stackFrames example_env) (issuerOf cyclic_compilation) 0"
    by (simp add: rootWithin_def cyclic_compilation_def)
  have cyc: "\<not> (\<forall>e \<in> set (errors cyclic_compilation). \<forall>m'. err_module e = Some m' \<longrightarrow>
      rootWithin (stackFrames example_env) (issuerOf cyclic_compilation) m')"
    using cyc_no_root by (simp add: cyclic_compilation_def example_error_def)
  have ?walk ?pages
    using findEntryModule_unguarded_walk
      [of "stackFrames example_env" ?f 2 0 RangeError 0 example_env example_compilation ?st
        "''/about''"]
      chain all
    by blast+
  moreover have ?short
    using findEntryModule_unguarded_walk
      [of 2 ?f 2 0 RangeError 0 example_env example_compilation ?st "''/about''"] no_root2
    by blast
  moreover have ?deep ?over
    using findEntryModule_unguarded_walk
      [of 5 ?f 2 0 RangeError 5 example_env example_compilation ?st "''/about''"]
    by simp_all
  moreover have ?cyc
    using findEntryModule_unguarded_walk
      [of 2 ?f 2 0 RangeError 0 example_env cyclic_compilation ?st "''/about''"] cyc
    by blast
  moreover have ?stats
    using findEntryModule_unguarded_walk
      [of 2 ?f 2 0 RangeError 0 example_env cyclic_compilation ?st "''/about''"] cyc
    by simp
  ultimately show ?thesis using root by blast
qed

text \<open>
  The claim as stated fails: no maximum depth is fixed. The chain from module 2 of the
  example compilation is walked to its root with three frames and overflows the stack
  with two. On an issuer cycle (module 0 issued by 1, module 1 issued by 0) the walk
  from module 0 ends only because the stack is exhausted, and no attribution is
  produced: \<open>erroredPages\<close> and \<open>getCompilationErrors\<close> throw \<^verbatim>\<open>RangeError\<close>, which
  rejects the page-bundle gate and \<open>run\<close> without an error response.
\<close>

theorem findEntryModule_cycle_counterexample:
  "findEntryModule 3 (issuerOf example_compilation) 2 = Returned 0 \<and>
   findEntryModule 2 (issuerOf example_compilation) 2 = Threw RangeError \<and>
   findEntryModule (stackFrames example_env) (issuerOf cyclic_compilation) 0 = Threw RangeError \<and>
   erroredPages example_env cyclic_compilation = Threw RangeError \<and>
   getCompilationErrors example_env cyclic_reloader ''/about'' = Threw RangeError \<and>
   run example_env cyclic_reloader same_origin_request fresh_response
     ''/_next/static/chunks/pages/about.js'' = (Threw RangeError, fresh_response, cyclic_reloader)"
proof -
  have walk: "findEntryModule (stackFrames example_env) (issuerOf cyclic_compilation) 0
      = Threw RangeError"
    by (rule findEntryModule_no_root) (simp add: cyclic_compilation_def)
  have unblocked: "''/about'' = ''/_error'' \<or> ''/about'' \<notin> set (BLOCKED_PAGES example_env)"
    by (simp add: example_env_def)
  have gate: "handlePageBundleRequest example_env cyclic_reloader fresh_response
      ''/_next/static/chunks/pages/about.js'' = (Threw RangeError, fresh_response, cyclic_reloader)"
    by (rule gate_throws[OF rp_about unblocked cyclic_reloader_ensurePage cyclic_reloader_errors])
  have cors: "addCorsSupport example_env same_origin_request fresh_response =
      (fresh_response, False)"
    by (simp add: addCorsSupport_def same_origin_request_def example_env_def Let_def truthy_def)
  have "findEntryModule 3 (issuerOf example_compilation) 2 = Returned 0"
    "findEntryModule 2 (issuerOf example_compilation) 2 = Threw RangeError"
    by (simp_all add: example_compilation_def numeral_3_eq_3 numeral_2_eq_2)
  then show ?thesis
    using walk cyclic_compilation_pages[of example_env]
      cyclic_reloader_errors[of example_env "''/about''"] gate cors
    by (simp add: run_def)
qed

subsection \<open>Server-only changes\<close>

text \<open>
  Claim C1. When the multi-compiler is done, \<open>serverOnlyChanges\<close> is the set of changed
  server pages minus the set of changed client pages: a subset of the first and disjoint
  from the second. The hook publishes, after the message for changed middleware if
  there is one, a \<^verbatim>\<open>serverOnlyChanges\<close> message with the pages exactly when that set is
  not empty, and empties both sets.
\<close>

theorem serverOnlyChanges_is_difference:
  "set (difference (changedServerPages this) (changedClientPages this)) =
     set (changedServerPages this) - set (changedClientPages this) \<and>
   set (difference (changedServerPages this) (changedClientPages this))
     \<subseteq> set (changedServerPages this) \<and>
   set (difference (changedServerPages this) (changedClientPages this))
     \<inter> set (changedClientPages this) = {} \<and>
   published (multiDone E this) =
     published this @
     (if filter (MIDDLEWARE_ROUTE E) (changedClientPages this) = [] then []
      else [Event ''middlewareChanges'' None]) @
     (if difference (changedServerPages this) (changedClientPages this) = [] then []
      else [Event ''serverOnlyChanges''
              (Some (map (\<lambda>pg. denormalizePagePath E (drop (length ''pages'') pg))
                       (difference (changedServerPages this) (changedClientPages this))))]) \<and>
   ((\<exists>pages. Event ''serverOnlyChanges'' pages \<in> set (newlyPublished this (multiDone E this))) \<longleftrightarrow>
      difference (changedServerPages this) (changedClientPages this) \<noteq> []) \<and>
   changedClientPages (multiDone E this) = [] \<and> changedServerPages (multiDone E this) = []"
proof -
  have sets: "set (difference (changedServerPages this) (changedClientPages this)) =
     set (changedServerPages this) - set (changedClientPages this)"
    by (auto simp: difference_def)
  have pub: "published (multiDone E this) =
     published this @
     (if filter (MIDDLEWARE_ROUTE E) (changedClientPages this) = [] then []
      else [Event ''middlewareChanges'' None]) @
     (if difference (changedServerPages this) (changedClientPages this) = [] then []
      else [Event ''serverOnlyChanges''
              (Some (map (\<lambda>pg. denormalizePagePath E (drop (length ''pages'') pg))
                       (difference (changedServerPages this) (changedClientPages this))))])"
    by (simp add: multiDone_def send_def Let_def)
  have new: "(\<exists>pages. Event ''serverOnlyChanges'' pages \<in> set (newlyPublished this (multiDone E this))) \<longleftrightarrow>
      difference (changedServerPages this) (changedClientPages this) \<noteq> []"
    unfolding newlyPublished_def pub by auto
  have cleared: "changedClientPages (multiDone E this) = [] \<and> changedServerPages (multiDone E this) = []"
    by (simp add: multiDone_def send_def Let_def)
  from sets pub new cleared show ?thesis by blast
qed

subsection \<open>The document chunk\<close>

text \<open>
  Claim C3. A completed server pass whose compilation has the chunk
  \<^verbatim>\<open>pages/_document\<close>: when a hash \<open>h\<close> is recorded from an earlier pass,
  \<^verbatim>\<open>reloadPage\<close> is published if and only if the chunk's hash differs from \<open>h\<close>, and
  then the new hash is recorded; an unchanged hash publishes nothing. When no hash is
  recorded yet (the first pass that sees the chunk) nothing is published and the hash is
  recorded (an undefined or empty hash as null). Without the chunk the hook publishes
  nothing and keeps the record.
\<close>

theorem serverDone_reloadPage:
  "(map_of (namedChunks (stats_compilation st)) ''pages/_document'' = Some documentChunk \<and>
    serverPrevDocumentHash this = Some h \<longrightarrow>
       newlyPublished this (serverDone this st) =
         (if chunk_hash documentChunk = Some h then [] else [Action ''reloadPage'' []]) \<and>
       (Action ''reloadPage'' [] \<in> set (newlyPublished this (serverDone this st)) \<longleftrightarrow>
          chunk_hash documentChunk \<noteq> Some h) \<and>
       serverPrevDocumentHash (serverDone this st) =
         (if chunk_hash documentChunk = Some h then Some h else or_null (chunk_hash documentChunk))) \<and>
   (map_of (namedChunks (stats_compilation st)) ''pages/_document'' = Some documentChunk \<and>
    serverPrevDocumentHash this = None \<longrightarrow>
       newlyPublished this (serverDone this st) = [] \<and>
       serverPrevDocumentHash (serverDone this st) = or_null (chunk_hash documentChunk)) \<and>
   (map_of (namedChunks (stats_compilation st)) ''pages/_document'' = None \<longrightarrow>
       newlyPublished this (serverDone this st) = [] \<and>
       serverPrevDocumentHash (serverDone this st) = serverPrevDocumentHash this)"
  by (simp add: serverDone_def newlyPublished_def send_def Let_def)

text \<open>Three passes after construction: the document hash is \<open>h1\<close>, then \<open>h1\<close> again,
  then \<open>h2\<close>. Only the third pass publishes \<^verbatim>\<open>reloadPage\<close>.\<close>

theorem serverDone_reloadPage_witness:
  "newlyPublished (constructed False False)
     (serverDone (constructed False False) (document_stats ''h1'')) = [] \<and>
   serverPrevDocumentHash (serverDone (constructed False False) (document_stats ''h1''))
     = Some ''h1'' \<and>
   newlyPublished (serverDone (constructed False False) (document_stats ''h1''))
     (serverDone (serverDone (constructed False False) (document_stats ''h1''))
        (document_stats ''h1'')) = [] \<and>
   newlyPublished (serverDone (constructed False False) (document_stats ''h1''))
     (serverDone (serverDone (constructed False False) (document_stats ''h1''))
        (document_stats ''h2'')) = [Action ''reloadPage'' []]"
proof -
  let ?s0 = "constructed False False"
  let ?s1 = "serverDone ?s0 (document_stats ''h1'')"
  let ?dc = "\<lambda>h. \<lparr>chunk_id = ''pages/_document'', chunk_hash = Some h\<rparr>"
  have chunk: "map_of (namedChunks (stats_compilation (document_stats x))) ''pages/_document''
      = Some (?dc x)" for x
    by (simp add: document_stats_def)
  have first: "serverPrevDocumentHash ?s0 = None"
    by (simp add: constructed_def)
  have p1: "newlyPublished ?s0 ?s1 = [] \<and> serverPrevDocumentHash ?s1 = Some ''h1''"
    using serverDone_reloadPage[of "document_stats ''h1''" "?dc ''h1''" ?s0 "''h1''"]
      chunk first
    by (simp add: or_null_def truthy_def)
  then have rec: "serverPrevDocumentHash ?s1 = Some ''h1''" by simp
  have p2: "newlyPublished ?s1 (serverDone ?s1 (document_stats ''h1'')) = []"
    using serverDone_reloadPage[of "document_stats ''h1''" "?dc ''h1''" ?s1 "''h1''"]
      chunk rec
    by simp
  have p3: "newlyPublished ?s1 (serverDone ?s1 (document_stats ''h2'')) = [Action ''reloadPage'' []]"
    using serverDone_reloadPage[of "document_stats ''h2''" "?dc ''h2''" ?s1 "''h1''"]
      chunk rec
    by simp
  from p1 p2 p3 show ?thesis by simp
qed

subsection \<open>The request gate\<close>

text \<open>
  Claim C4, as amended. For a bundle request whose path decodes to a page that is
  \<^verbatim>\<open>/_error\<close> or is not in \<^verbatim>\<open>BLOCKED_PAGES\<close>: if \<open>ensurePage\<close> rejects, or it resolves
  and \<open>getCompilationErrors\<close> for the page is not empty, the gate writes the plaintext
  error response (caching disabled, 404 for the code \<^verbatim>\<open>ENOENT\<close>, 500 otherwise) for the
  rejection or for the first error and returns \<^verbatim>\<open>finished: true\<close>; if there is no
  error it writes nothing and returns no flag; if reading the errors throws, it throws
  the same and writes nothing. For any other blocked page, and for a
  path that does not match, it writes nothing and returns no flag, whatever errors are
  recorded. For a path that matches and does not decode it throws \<^verbatim>\<open>DecodeError\<close>.
\<close>

theorem gate_error_responses:
  "(requestedPage E pathname = Some page \<and> (page = ''/_error'' \<or> page \<notin> set (BLOCKED_PAGES E)) \<longrightarrow>
      (ensurePage E this page True = (Rejected err, this1) \<longrightarrow>
         isErrorResponse (toError err) (fst (renderScriptError res (toError err) True)) \<and>
         handlePageBundleRequest E this res pathname =
           (Returned True, fst (renderScriptError res (toError err) True),
                 this1\<lparr>console := console this1 @ snd (renderScriptError res (toError err) True)\<rparr>)) \<and>
      (ensurePage E this page True = (Resolved, this1) \<and>
       getCompilationErrors E this1 page = Returned (first # rest) \<longrightarrow>
         isErrorResponse first (fst (renderScriptError res first False)) \<and>
         handlePageBundleRequest E this res pathname =
           (Returned True, fst (renderScriptError res first False), this1)) \<and>
      (ensurePage E this page True = (Resolved, this1) \<and>
       getCompilationErrors E this1 page = Returned [] \<longrightarrow>
         handlePageBundleRequest E this res pathname = (Returned False, res, this1)) \<and>
      (ensurePage E this page True = (Resolved, this1) \<and>
       getCompilationErrors E this1 page = Threw x \<longrightarrow>
         handlePageBundleRequest E this res pathname = (Threw x, res, this1))) \<and>
   (requestedPage E pathname = Some page \<and> page \<noteq> ''/_error'' \<and> page \<in> set (BLOCKED_PAGES E) \<longrightarrow>
      handlePageBundleRequest E this res pathname = (Returned False, res, this)) \<and>
   (matchNextPageBundleRequest E pathname = None \<longrightarrow>
      handlePageBundleRequest E this res pathname = (Returned False, res, this)) \<and>
   (matchNextPageBundleRequest E pathname = Some params \<and>
    those (map (decodeURIComponent E) params) = None \<longrightarrow>
      handlePageBundleRequest E this res pathname =
        (Threw (DecodeError ''failed to decode param''), res, this))"
  (is "(?checked \<longrightarrow> ?A) \<and> (?blocked \<longrightarrow> ?B) \<and> (?nomatch \<longrightarrow> ?C) \<and> (?undecodable \<longrightarrow> ?D)")
proof (intro conjI)
  show "?checked \<longrightarrow> ?A"
  proof (rule impI)
    assume c: ?checked
    note body = gate_checked[OF conjunct1[OF c] conjunct2[OF c], of this res]
    show ?A
      unfolding body by (simp add: renderScriptError_isErrorResponse)
  qed
  show "?blocked \<longrightarrow> ?B" using gate_blocked by blast
  show "?nomatch \<longrightarrow> ?C" using gate_no_match by blast
  show "?undecodable \<longrightarrow> ?D" using gate_decode_error by blast
qed

theorem gate_error_responses_witness:
  "handlePageBundleRequest example_env missing_page_reloader fresh_response
     ''/_next/static/chunks/pages/about.js'' =
     (Returned True,
           \<lparr>res_headers = [''Cache-Control'' \<mapsto> ''no-cache, no-store, max-age=0, must-revalidate''],
            statusCode = 404, res_ended = Some ''404 - Not Found''\<rparr>,
           missing_page_reloader\<lparr>ensured := [(''/about'', True)]\<rparr>) \<and>
   handlePageBundleRequest example_env failing_reloader fresh_response
     ''/_next/static/chunks/pages/about.js'' =
     (Returned True,
           \<lparr>res_headers = [''Cache-Control'' \<mapsto> ''no-cache, no-store, max-age=0, must-revalidate''],
            statusCode = 500, res_ended = Some ''500 - Internal Error''\<rparr>,
           failing_reloader\<lparr>console := [''boom'']\<rparr>) \<and>
   handlePageBundleRequest example_env (constructed False False) fresh_response
     ''/_next/static/chunks/pages/about.js'' =
     (Returned False, fresh_response, constructed False False) \<and>
   handlePageBundleRequest example_env cyclic_reloader fresh_response
     ''/_next/static/chunks/pages/about.js'' =
     (Threw RangeError, fresh_response, cyclic_reloader)"
proof -
  let ?enoent = "ErrorValue \<lparr>err_code = Some ''ENOENT'', err_stack = ''page not found'',
                                err_module = None\<rparr>"
  have unblocked: "''/about'' = ''/_error'' \<or> ''/about'' \<notin> set (BLOCKED_PAGES example_env)"
    by (simp add: example_env_def)
  have e1: "ensurePage example_env missing_page_reloader ''/about'' True =
      (Rejected ?enoent, missing_page_reloader\<lparr>ensured := [(''/about'', True)]\<rparr>)"
    by (simp add: ensurePage_def missing_page_reloader_def constructed_def example_env_def)
  have e2: "ensurePage example_env failing_reloader ''/about'' True =
      (Rejected (ErrorValue (example_error ''boom'' None)), failing_reloader)"
    by (simp add: ensurePage_def failing_reloader_def constructed_def example_env_def)
  have e3: "ensurePage example_env (constructed False False) ''/about'' True =
      (Resolved, constructed False False)"
    by (simp add: ensurePage_def constructed_def example_env_def)
  have g3: "getCompilationErrors example_env (constructed False False) ''/about'' = Returned []"
    by (simp add: getCompilationErrors_def constructed_def or_else_def Let_def)
  have r1: "handlePageBundleRequest example_env missing_page_reloader fresh_response
     ''/_next/static/chunks/pages/about.js'' =
       (Returned True, fst (renderScriptError fresh_response (toError ?enoent) True),
             (missing_page_reloader\<lparr>ensured := [(''/about'', True)]\<rparr>)
               \<lparr>console := console (missing_page_reloader\<lparr>ensured := [(''/about'', True)]\<rparr>)
                   @ snd (renderScriptError fresh_response (toError ?enoent) True)\<rparr>)"
    using gate_error_responses[of example_env "''/_next/static/chunks/pages/about.js''" "''/about''"
        missing_page_reloader ?enoent "missing_page_reloader\<lparr>ensured := [(''/about'', True)]\<rparr>"
        fresh_response]
      rp_about unblocked e1 by blast
  have r2: "handlePageBundleRequest example_env failing_reloader fresh_response
     ''/_next/static/chunks/pages/about.js'' =
       (Returned True,
             fst (renderScriptError fresh_response (toError (ErrorValue (example_error ''boom'' None))) True),
             failing_reloader
               \<lparr>console := console failing_reloader
                   @ snd (renderScriptError fresh_response
                            (toError (ErrorValue (example_error ''boom'' None))) True)\<rparr>)"
    using gate_error_responses[of example_env "''/_next/static/chunks/pages/about.js''" "''/about''"
        failing_reloader "ErrorValue (example_error ''boom'' None)" failing_reloader fresh_response]
      rp_about unblocked e2 by blast
  have r3: "handlePageBundleRequest example_env (constructed False False) fresh_response
     ''/_next/static/chunks/pages/about.js'' =
     (Returned False, fresh_response, constructed False False)"
    using gate_error_responses[of example_env "''/_next/static/chunks/pages/about.js''" "''/about''"
        "constructed False False" _ "constructed False False" fresh_response]
      rp_about unblocked e3 g3 by blast
  have r4: "handlePageBundleRequest example_env cyclic_reloader fresh_response
     ''/_next/static/chunks/pages/about.js'' =
     (Threw RangeError, fresh_response, cyclic_reloader)"
    using gate_error_responses[of example_env "''/_next/static/chunks/pages/about.js''" "''/about''"
        cyclic_reloader _ cyclic_reloader fresh_response _ _ RangeError]
      rp_about unblocked cyclic_reloader_ensurePage
      cyclic_reloader_errors[of example_env "''/about''"] by blast
  show ?thesis
    unfolding r1 r2 r3 r4
    by (simp add: renderScriptError_def toError_def fresh_response_def setHeader_def
        end_response_def example_error_def Let_def missing_page_reloader_def failing_reloader_def
        constructed_def)
qed

text \<open>
  The claim as stated fails in two places. With a failed client compiler, \<open>ensurePage\<close>
  for the blocked page \<^verbatim>\<open>/_app\<close> resolves and \<open>getCompilationErrors\<close> is not empty, yet
  the gate writes nothing for the bundle of \<^verbatim>\<open>/_app\<close>. And for the path with the
  malformed escape \<^verbatim>\<open>%\<close> the gate returns no result: it throws.
\<close>

theorem gate_blocked_page_counterexample:
  "ensurePage example_env failing_reloader ''/_app'' True = (Resolved, failing_reloader) \<and>
   getCompilationErrors example_env failing_reloader ''/_app''
     = Returned [example_error ''boom'' None] \<and>
   handlePageBundleRequest example_env failing_reloader fresh_response
     ''/_next/static/chunks/pages/_app.js'' = (Returned False, fresh_response, failing_reloader) \<and>
   handlePageBundleRequest example_env failing_reloader fresh_response
     ''/_next/static/chunks/pages/%.js'' =
     (Threw (DecodeError ''failed to decode param''), fresh_response, failing_reloader)"
proof -
  have a: "ensurePage example_env failing_reloader ''/_app'' True = (Resolved, failing_reloader)"
    by (simp add: ensurePage_def example_env_def)
  have b: "getCompilationErrors example_env failing_reloader ''/_app''
     = Returned [example_error ''boom'' None]"
    by (simp add: getCompilationErrors_def failing_reloader_def constructed_def or_else_def Let_def)
  have c: "handlePageBundleRequest example_env failing_reloader fresh_response
     ''/_next/static/chunks/pages/_app.js'' = (Returned False, fresh_response, failing_reloader)"
    by (rule gate_blocked[OF rp_app]) (simp_all add: example_env_def)
  have d: "handlePageBundleRequest example_env failing_reloader fresh_response
     ''/_next/static/chunks/pages/%.js'' =
     (Threw (DecodeError ''failed to decode param''), fresh_response, failing_reloader)"
    by (rule gate_decode_error[where params = "[''%'']"])
       (simp_all add: example_env_def suffix_to_prefix)
  from a b c d show ?thesis by simp
qed

subsection \<open>Cross-origin requests\<close>

text \<open>
  Claim C6, as amended. A request with a non-empty Origin header whose URL is not an API
  route gets the headers \<^verbatim>\<open>Access-Control-Allow-Origin\<close> (its origin) and
  \<^verbatim>\<open>Access-Control-Allow-Methods\<close>, and \<^verbatim>\<open>Access-Control-Allow-Headers\<close> when it asks
  for headers, before anything else is done. If its method is \<^verbatim>\<open>OPTIONS\<close> the response
  is ended with status 200 and an empty body, and \<open>run\<close> returns at once: its result
  does not depend on the path, and the state, with the list of pages handed to the
  on-demand entry handler, is as before. Otherwise \<open>run\<close> hands the response that
  already carries these headers to the page-bundle gate and then to the middlewares;
  the gate leaves the headers in place, and so does \<open>run\<close> when no middleware touches
  them. A request whose URL is an API route, or without Origin header, or with an empty
  one, gets no header, also when its method is \<^verbatim>\<open>OPTIONS\<close>, and \<open>run\<close> goes on to the
  gate with the response as it came.
\<close>

theorem addCorsSupport_cross_origin:
  "(\<not> API_ROUTE E (req_url req) \<and> req_headers req ''origin'' = Some origin \<and> origin \<noteq> [] \<longrightarrow>
      res_headers (fst (addCorsSupport E req res)) ''Access-Control-Allow-Origin'' = Some origin \<and>
      res_headers (fst (addCorsSupport E req res)) ''Access-Control-Allow-Methods''
        = Some ''OPTIONS, GET'' \<and>
      (req_headers req ''access-control-request-headers'' = Some h \<and> h \<noteq> [] \<longrightarrow>
         res_headers (fst (addCorsSupport E req res)) ''Access-Control-Allow-Headers'' = Some h) \<and>
      (snd (addCorsSupport E req res) \<longleftrightarrow> req_method req = ''OPTIONS'') \<and>
      (req_method req = ''OPTIONS'' \<longrightarrow>
         statusCode (fst (addCorsSupport E req res)) = 200 \<and>
         res_ended (fst (addCorsSupport E req res)) = Some [] \<and>
         run E this req res pathname = (Returned False, fst (addCorsSupport E req res), this)) \<and>
      (req_method req \<noteq> ''OPTIONS'' \<longrightarrow>
         res_ended (fst (addCorsSupport E req res)) = res_ended res \<and>
         statusCode (fst (addCorsSupport E req res)) = statusCode res \<and>
         run E this req res pathname =
           (case handlePageBundleRequest E this (fst (addCorsSupport E req res)) pathname of
              (Threw err, res2, this1) \<Rightarrow> (Threw err, res2, this1)
            | (Returned finished, res2, this1) \<Rightarrow>
                (case runMiddlewares (middlewares this1) req res2 of
                   (Some err, res3) \<Rightarrow> (Threw err, res3, this1)
                 | (None, res3) \<Rightarrow> (Returned finished, res3, this1))) \<and>
         res_headers (fst (snd (handlePageBundleRequest E this
              (fst (addCorsSupport E req res)) pathname))) ''Access-Control-Allow-Origin''
           = Some origin \<and>
         res_headers (fst (snd (handlePageBundleRequest E this
              (fst (addCorsSupport E req res)) pathname))) ''Access-Control-Allow-Methods''
           = Some ''OPTIONS, GET'' \<and>
         ((\<forall>fn \<in> set (middlewares this). \<forall>rq r.
             res_headers (snd (fn rq r)) ''Access-Control-Allow-Origin''
               = res_headers r ''Access-Control-Allow-Origin'' \<and>
             res_headers (snd (fn rq r)) ''Access-Control-Allow-Methods''
               = res_headers r ''Access-Control-Allow-Methods'') \<longrightarrow>
          res_headers (fst (snd (run E this req res pathname))) ''Access-Control-Allow-Origin''
            = Some origin \<and>
          res_headers (fst (snd (run E this req res pathname))) ''Access-Control-Allow-Methods''
            = Some ''OPTIONS, GET''))) \<and>
   (API_ROUTE E (req_url req) \<or> req_headers req ''origin'' = None \<or>
    req_headers req ''origin'' = Some [] \<longrightarrow>
      addCorsSupport E req res = (res, False) \<and>
      run E this req res pathname =
        (case handlePageBundleRequest E this res pathname of
           (Threw err, res2, this1) \<Rightarrow> (Threw err, res2, this1)
         | (Returned finished, res2, this1) \<Rightarrow>
             (case runMiddlewares (middlewares this1) req res2 of
                (Some err, res3) \<Rightarrow> (Threw err, res3, this1)
              | (None, res3) \<Rightarrow> (Returned finished, res3, this1))))"
  (is "(?cross \<longrightarrow> ?origin \<and> ?methods \<and> ?headers \<and> ?flag \<and> (?options \<longrightarrow> ?status \<and> ?body \<and> ?early)
        \<and> (_ \<longrightarrow> ?open \<and> ?code \<and> ?handed \<and> ?keptOrigin \<and> ?keptMethods \<and> (?quiet \<longrightarrow> ?final)))
      \<and> (?plain \<longrightarrow> ?untouched \<and> ?through)")
proof (rule conjI; rule impI)
  assume a: ?cross
  then have c: "?origin \<and> ?methods \<and> ?headers \<and> ?flag \<and> (?options \<longrightarrow> ?status \<and> ?body)
      \<and> (\<not> ?options \<longrightarrow> ?open \<and> ?code)"
    by (simp add: addCorsSupport_def setHeader_def writeHead_def end_response_def Let_def
        split: option.splits)
  have p: "?options \<longrightarrow> ?early"
  proof
    assume ?options
    with c have "snd (addCorsSupport E req res)" by blast
    then show ?early
      by (cases "addCorsSupport E req res") (auto simp: run_def)
  qed
  have g: "?keptOrigin \<and> ?keptMethods"
    using c by (simp add: gate_other_headers)
  have r: "\<not> ?options \<longrightarrow> ?handed \<and> (?quiet \<longrightarrow> ?final)"
  proof (rule impI)
    assume "\<not> ?options"
    with c have np: "snd (addCorsSupport E req res) = False" by blast
    have handed: ?handed by (rule run_through[OF np])
    have "?final" if q: ?quiet
    proof -
      from q have qo: "\<forall>fn \<in> set (middlewares this). \<forall>rq r.
          res_headers (snd (fn rq r)) ''Access-Control-Allow-Origin''
            = res_headers r ''Access-Control-Allow-Origin''"
        by simp
      from q have qm: "\<forall>fn \<in> set (middlewares this). \<forall>rq r.
          res_headers (snd (fn rq r)) ''Access-Control-Allow-Methods''
            = res_headers r ''Access-Control-Allow-Methods''"
        by simp
      have "res_headers (fst (snd (run E this req res pathname))) ''Access-Control-Allow-Origin''
          = res_headers (fst (addCorsSupport E req res)) ''Access-Control-Allow-Origin''"
        by (rule run_headers[OF np _ qo]) simp
      moreover
      have "res_headers (fst (snd (run E this req res pathname))) ''Access-Control-Allow-Methods''
          = res_headers (fst (addCorsSupport E req res)) ''Access-Control-Allow-Methods''"
        by (rule run_headers[OF np _ qm]) simp
      ultimately show ?final using c by simp
    qed
    with handed show "?handed \<and> (?quiet \<longrightarrow> ?final)" by blast
  qed
  from c p g r
  show "?origin \<and> ?methods \<and> ?headers \<and> ?flag \<and> (?options \<longrightarrow> ?status \<and> ?body \<and> ?early)
        \<and> (\<not> ?options \<longrightarrow> ?open \<and> ?code \<and> ?handed \<and> ?keptOrigin \<and> ?keptMethods
              \<and> (?quiet \<longrightarrow> ?final))"
    by blast
next
  assume ?plain
  then have u: ?untouched by (auto simp: addCorsSupport_def)
  then have ?through using run_through[of E req res this pathname] by simp
  with u show "?untouched \<and> ?through" by simp
qed

text \<open>A preflight request from another origin is answered at once; a \<^verbatim>\<open>GET\<close> request
  from another origin for the bundle of a page, while the client compiler has failed,
  gets the error response with the cross-origin headers on it, also after a middleware
  has marked it; a request without Origin
  header gets no header.\<close>

theorem addCorsSupport_cross_origin_witness:
  "run example_env (constructed False False) cross_origin_preflight fresh_response
     ''/_next/static/chunks/pages/about.js'' =
     (Returned False,
           \<lparr>res_headers = [''Access-Control-Allow-Origin'' \<mapsto> ''https://zone.example'',
                            ''Access-Control-Allow-Methods'' \<mapsto> ''OPTIONS, GET''],
            statusCode = 200, res_ended = Some []\<rparr>,
           constructed False False) \<and>
   run example_env watched_reloader cross_origin_get fresh_response
     ''/_next/static/chunks/pages/about.js'' =
     (Returned True,
           \<lparr>res_headers = [''Access-Control-Allow-Origin'' \<mapsto> ''https://zone.example'',
                            ''Access-Control-Allow-Methods'' \<mapsto> ''OPTIONS, GET'',
                            ''Cache-Control'' \<mapsto> ''no-cache, no-store, max-age=0, must-revalidate'',
                            ''X-Seen'' \<mapsto> ''1''],
            statusCode = 500, res_ended = Some ''500 - Internal Error''\<rparr>,
           watched_reloader\<lparr>console := [''boom'']\<rparr>) \<and>
   res_headers (fst (snd (run example_env watched_reloader cross_origin_get fresh_response
     ''/_next/static/chunks/pages/about.js''))) ''Access-Control-Allow-Origin''
     = Some ''https://zone.example'' \<and>
   addCorsSupport example_env same_origin_request fresh_response = (fresh_response, False)"
  (is "?preflight \<and> ?get \<and> ?final \<and> ?same")
proof -
  let ?path = "''/_next/static/chunks/pages/about.js''"
  let ?cors = "\<lparr>res_headers = [''Access-Control-Allow-Origin'' \<mapsto> ''https://zone.example'',
                       ''Access-Control-Allow-Methods'' \<mapsto> ''OPTIONS, GET''],
       statusCode = 200, res_ended = None\<rparr>"
  have hyp: "\<not> API_ROUTE example_env (req_url cross_origin_preflight) \<and>
      req_headers cross_origin_preflight ''origin'' = Some ''https://zone.example'' \<and>
      ''https://zone.example'' \<noteq> []"
    by (simp add: example_env_def cross_origin_preflight_def)
  have opt: "req_method cross_origin_preflight = ''OPTIONS''"
    by (simp add: cross_origin_preflight_def)
  have hyp_get: "\<not> API_ROUTE example_env (req_url cross_origin_get) \<and>
      req_headers cross_origin_get ''origin'' = Some ''https://zone.example'' \<and>
      ''https://zone.example'' \<noteq> []"
    by (simp add: example_env_def cross_origin_get_def)
  have get: "req_method cross_origin_get \<noteq> ''OPTIONS''"
    by (simp add: cross_origin_get_def)
  have none: "req_headers same_origin_request ''origin'' = None"
    by (simp add: same_origin_request_def)
  have res: "fst (addCorsSupport example_env cross_origin_preflight fresh_response) =
      \<lparr>res_headers = [''Access-Control-Allow-Origin'' \<mapsto> ''https://zone.example'',
                       ''Access-Control-Allow-Methods'' \<mapsto> ''OPTIONS, GET''],
       statusCode = 200, res_ended = Some []\<rparr>"
    by (simp add: addCorsSupport_def example_env_def cross_origin_preflight_def
        fresh_response_def setHeader_def writeHead_def end_response_def Let_def)
  have res_get: "fst (addCorsSupport example_env cross_origin_get fresh_response) = ?cors"
    by (simp add: addCorsSupport_def example_env_def cross_origin_get_def
        fresh_response_def setHeader_def writeHead_def end_response_def Let_def)
  have quiet: "\<forall>fn \<in> set (middlewares watched_reloader). \<forall>rq r.
      res_headers (snd (fn rq r)) ''Access-Control-Allow-Origin''
        = res_headers r ''Access-Control-Allow-Origin'' \<and>
      res_headers (snd (fn rq r)) ''Access-Control-Allow-Methods''
        = res_headers r ''Access-Control-Allow-Methods''"
    by (simp add: watched_reloader_def marking_middleware_def setHeader_def)
  have unblocked: "''/about'' = ''/_error'' \<or> ''/about'' \<notin> set (BLOCKED_PAGES example_env)"
    by (simp add: example_env_def)
  have ens: "ensurePage example_env watched_reloader ''/about'' True =
      (Rejected (ErrorValue (example_error ''boom'' None)), watched_reloader)"
    by (simp add: ensurePage_def watched_reloader_def failing_reloader_def constructed_def
        example_env_def)
  have gate: "handlePageBundleRequest example_env watched_reloader ?cors ?path =
      (Returned True,
       \<lparr>res_headers = [''Access-Control-Allow-Origin'' \<mapsto> ''https://zone.example'',
                        ''Access-Control-Allow-Methods'' \<mapsto> ''OPTIONS, GET'',
                        ''Cache-Control'' \<mapsto> ''no-cache, no-store, max-age=0, must-revalidate''],
        statusCode = 500, res_ended = Some ''500 - Internal Error''\<rparr>,
       watched_reloader\<lparr>console := [''boom'']\<rparr>)"
    unfolding gate_checked[OF rp_about unblocked] ens
    by (simp add: renderScriptError_def toError_def setHeader_def end_response_def
        example_error_def Let_def watched_reloader_def failing_reloader_def constructed_def)
  note t1 = addCorsSupport_cross_origin
      [of example_env cross_origin_preflight "''https://zone.example''" fresh_response _
          "constructed False False" ?path]
  note t2 = addCorsSupport_cross_origin
      [of example_env cross_origin_get "''https://zone.example''" fresh_response _
          watched_reloader ?path]
  note t3 = addCorsSupport_cross_origin
      [of example_env same_origin_request _ fresh_response _ "constructed False False" "[]"]
  have "run example_env (constructed False False) cross_origin_preflight fresh_response ?path =
     (Returned False, fst (addCorsSupport example_env cross_origin_preflight fresh_response),
           constructed False False)"
    using t1 hyp opt by blast
  then have ?preflight by (simp add: res)
  moreover have "run example_env watched_reloader cross_origin_get fresh_response ?path =
      (case handlePageBundleRequest example_env watched_reloader
              (fst (addCorsSupport example_env cross_origin_get fresh_response)) ?path of
         (Threw err, res2, this1) \<Rightarrow> (Threw err, res2, this1)
       | (Returned finished, res2, this1) \<Rightarrow>
           (case runMiddlewares (middlewares this1) cross_origin_get res2 of
              (Some err, res3) \<Rightarrow> (Threw err, res3, this1)
            | (None, res3) \<Rightarrow> (Returned finished, res3, this1)))"
    using t2 hyp_get get by blast
  then have ?get
    unfolding res_get gate
    by (simp add: watched_reloader_def failing_reloader_def constructed_def
        marking_middleware_def setHeader_def)
  moreover have ?final using t2 hyp_get get quiet by blast
  moreover have ?same using t3 none by blast
  ultimately show ?thesis by blast
qed

text \<open>
  The claim as stated fails for a request that bears an Origin header with an empty
  value: the test of the source takes it for none. Such a preflight request for the
  bundle of a page gets no cross-origin header and is not answered; \<open>run\<close> goes on to
  the gate, which hands the page to the on-demand entry handler.
\<close>

theorem addCorsSupport_empty_origin_counterexample:
  "req_headers empty_origin_preflight ''origin'' = Some [] \<and>
   req_method empty_origin_preflight = ''OPTIONS'' \<and>
   \<not> API_ROUTE example_env (req_url empty_origin_preflight) \<and>
   addCorsSupport example_env empty_origin_preflight fresh_response = (fresh_response, False) \<and>
   run example_env idle_reloader empty_origin_preflight fresh_response
     ''/_next/static/chunks/pages/about.js'' =
     (Returned False, fresh_response, idle_reloader\<lparr>ensured := [(''/about'', True)]\<rparr>)"
proof -
  have cors: "addCorsSupport example_env empty_origin_preflight fresh_response
      = (fresh_response, False)"
    by (simp add: addCorsSupport_def empty_origin_preflight_def example_env_def Let_def
        truthy_def)
  have unblocked: "''/about'' = ''/_error'' \<or> ''/about'' \<notin> set (BLOCKED_PAGES example_env)"
    by (simp add: example_env_def)
  have ens: "ensurePage example_env idle_reloader ''/about'' True =
      (Resolved, idle_reloader\<lparr>ensured := [(''/about'', True)]\<rparr>)"
    by (simp add: ensurePage_def idle_reloader_def constructed_def example_env_def)
  have errs: "getCompilationErrors example_env (idle_reloader\<lparr>ensured := [(''/about'', True)]\<rparr>)
      ''/about'' = Returned []"
    by (simp add: getCompilationErrors_def idle_reloader_def constructed_def or_else_def Let_def)
  have gate: "handlePageBundleRequest example_env idle_reloader fresh_response
      ''/_next/static/chunks/pages/about.js'' =
      (Returned False, fresh_response, idle_reloader\<lparr>ensured := [(''/about'', True)]\<rparr>)"
    unfolding gate_checked[OF rp_about unblocked] ens by (simp add: errs)
  have mw: "middlewares (idle_reloader\<lparr>ensured := [(''/about'', True)]\<rparr>) = []"
    by (simp add: idle_reloader_def constructed_def)
  have run: "run example_env idle_reloader empty_origin_preflight fresh_response
     ''/_next/static/chunks/pages/about.js'' =
     (Returned False, fresh_response, idle_reloader\<lparr>ensured := [(''/about'', True)]\<rparr>)"
    by (simp add: run_def cors gate mw)
  show ?thesis
    using cors run by (simp add: empty_origin_preflight_def example_env_def)
qed

subsection \<open>The blocked pages and the error page\<close>

text \<open>
  Claim C10. For a page of \<^verbatim>\<open>BLOCKED_PAGES\<close> other than \<^verbatim>\<open>/_error\<close>, \<open>ensurePage\<close>
  resolves at once and leaves the state as it is (nothing is handed to the on-demand
  entry handler, whatever errors are recorded), and the gate returns without calling
  it and without writing. For \<^verbatim>\<open>/_error\<close>, whether it is in \<^verbatim>\<open>BLOCKED_PAGES\<close> or not,
  \<open>ensurePage\<close> rejects with the recorded error or hands the page to the handler, and
  the gate calls it and then reads the compilation errors.
\<close>

theorem error_page_exempt_from_blocked_pages:
  "(page \<in> set (BLOCKED_PAGES E) \<and> page \<noteq> ''/_error'' \<longrightarrow>
      ensurePage E this page clientOnly = (Resolved, this) \<and>
      (requestedPage E pathname = Some page \<longrightarrow>
         handlePageBundleRequest E this res pathname = (Returned False, res, this))) \<and>
   ensurePage E this ''/_error'' clientOnly =
      (case (if clientOnly then clientError this
             else or_else (serverError this) (clientError this)) of
         Some error \<Rightarrow> (Rejected (ErrorValue error), this)
       | None \<Rightarrow>
           (case onDemandEntries this of
              None \<Rightarrow> (Resolved, this)
            | Some handler \<Rightarrow>
                (handler ''/_error'' clientOnly,
                 this\<lparr>ensured := ensured this @ [(''/_error'', clientOnly)]\<rparr>))) \<and>
   (requestedPage E pathname = Some ''/_error'' \<longrightarrow>
      handlePageBundleRequest E this res pathname =
        (case ensurePage E this ''/_error'' True of
           (Rejected error, this1) \<Rightarrow>
             (Returned True, fst (renderScriptError res (toError error) True),
                   this1\<lparr>console := console this1
                            @ snd (renderScriptError res (toError error) True)\<rparr>)
         | (Resolved, this1) \<Rightarrow>
             (case getCompilationErrors E this1 ''/_error'' of
                Threw x \<Rightarrow> (Threw x, res, this1)
              | Returned [] \<Rightarrow> (Returned False, res, this1)
              | Returned (first # rest) \<Rightarrow>
                  (Returned True, fst (renderScriptError res first False), this1))))"
  (is "(?blocked \<longrightarrow> ?A \<and> ?B) \<and> ?C \<and> (?requested \<longrightarrow> ?D)")
proof (intro conjI impI)
  assume ?blocked
  then show ?A by (simp add: ensurePage_def)
next
  assume b: ?blocked and r: "requestedPage E pathname = Some page"
  from gate_blocked[OF r] b
  show "handlePageBundleRequest E this res pathname = (Returned False, res, this)"
    by blast
next
  show ?C by (simp add: ensurePage_def)
next
  assume ?requested
  then show ?D by (rule gate_checked) simp
qed

theorem error_page_exempt_from_blocked_pages_witness:
  "''/_error'' \<in> set (BLOCKED_PAGES example_env) \<and>
   handlePageBundleRequest example_env failing_reloader fresh_response
     ''/_next/static/chunks/pages/_app.js'' = (Returned False, fresh_response, failing_reloader) \<and>
   fst (handlePageBundleRequest example_env failing_reloader fresh_response
     ''/_next/static/chunks/pages/_error.js'') = Returned True \<and>
   ensured (snd (ensurePage example_env (constructed False False
                   \<lparr>onDemandEntries := Some (\<lambda>page clientOnly. Resolved)\<rparr>) ''/_error'' True))
     = [(''/_error'', True)] \<and>
   ensured (snd (ensurePage example_env (constructed False False
                   \<lparr>onDemandEntries := Some (\<lambda>page clientOnly. Resolved)\<rparr>) ''/_app'' True))
     = []"
proof -
  let ?idle = "constructed False False\<lparr>onDemandEntries := Some (\<lambda>page clientOnly. Resolved)\<rparr>"
  have app: "''/_app'' \<in> set (BLOCKED_PAGES example_env) \<and> ''/_app'' \<noteq> ''/_error''"
    by (simp add: example_env_def)
  have err: "''/_error'' \<in> set (BLOCKED_PAGES example_env)"
    by (simp add: example_env_def)
  note t1 = error_page_exempt_from_blocked_pages
    [of "''/_app''" example_env failing_reloader True "''/_next/static/chunks/pages/_app.js''"
        fresh_response]
  note t2 = error_page_exempt_from_blocked_pages
    [of "''/_app''" example_env failing_reloader True "''/_next/static/chunks/pages/_error.js''"
        fresh_response]
  note t3 = error_page_exempt_from_blocked_pages
    [of "''/_app''" example_env ?idle True "[]" fresh_response]
  have a: "handlePageBundleRequest example_env failing_reloader fresh_response
     ''/_next/static/chunks/pages/_app.js'' = (Returned False, fresh_response, failing_reloader)"
    using t1 app rp_app by blast
  have r: "ensurePage example_env failing_reloader ''/_error'' True
      = (Rejected (ErrorValue (example_error ''boom'' None)), failing_reloader)"
    using t2 by (simp add: failing_reloader_def constructed_def)
  have b: "fst (handlePageBundleRequest example_env failing_reloader fresh_response
     ''/_next/static/chunks/pages/_error.js'') = Returned True"
    using t2 rp_error by (simp add: r)
  have c: "ensured (snd (ensurePage example_env ?idle ''/_error'' True)) = [(''/_error'', True)]"
    using t3 by (simp add: constructed_def)
  have d: "ensured (snd (ensurePage example_env ?idle ''/_app'' True)) = []"
    using t3 app by (simp add: constructed_def)
  from err a b c d show ?thesis by simp
qed

subsection \<open>The errors of a page\<close>

lemma errorsOfStats_attributed:
  "attributedErrors E st page = Returned es \<Longrightarrow>
   errorsOfStats E st page = Returned (if es \<noteq> [] then es else errors (stats_compilation st))"
  by (auto simp: attributedErrors_def errorsOfStats_def split: result.splits option.splits)

lemma errorsOfStats_throws:
  "attributedErrors E st page = Threw x \<Longrightarrow> errorsOfStats E st page = Threw x"
  by (auto simp: attributedErrors_def errorsOfStats_def split: result.splits)

text \<open>
  Claim C5, as amended. \<open>getCompilationErrors\<close> returns the fatal error alone when one is
  recorded (the client's before the server's); else, for the first target that has
  errors, the client before the server, the errors \<open>erroredPages\<close> attributes to the
  page in that target's compilation if there are any, and else that target's full list
  of errors; else the empty list. The errors that the server compilation attributes to
  the page are not looked at while the client compilation has errors. Where the
  attribution in that target's compilation throws, \<open>getCompilationErrors\<close> throws the
  same.
\<close>

theorem getCompilationErrors_priority:
  "(or_else (clientError this) (serverError this) = Some fatal \<longrightarrow>
      getCompilationErrors E this page = Returned [fatal]) \<and>
   (or_else (clientError this) (serverError this) = None \<and>
    clientStats this = Some cst \<and> hasErrors cst \<and>
    attributedErrors E cst (normalizePathSep E page) = Returned es \<longrightarrow>
      getCompilationErrors E this page =
        Returned (if es \<noteq> [] then es else errors (stats_compilation cst))) \<and>
   (or_else (clientError this) (serverError this) = None \<and>
    (\<forall>st. clientStats this = Some st \<longrightarrow> \<not> hasErrors st) \<and>
    serverStats this = Some sst \<and> hasErrors sst \<and>
    attributedErrors E sst (normalizePathSep E page) = Returned es \<longrightarrow>
      getCompilationErrors E this page =
        Returned (if es \<noteq> [] then es else errors (stats_compilation sst))) \<and>
   (or_else (clientError this) (serverError this) = None \<and>
    (\<forall>st. clientStats this = Some st \<longrightarrow> \<not> hasErrors st) \<and>
    (\<forall>st. serverStats this = Some st \<longrightarrow> \<not> hasErrors st) \<longrightarrow>
      getCompilationErrors E this page = Returned []) \<and>
   (or_else (clientError this) (serverError this) = None \<and>
    clientStats this = Some cst \<and> hasErrors cst \<and>
    attributedErrors E cst (normalizePathSep E page) = Threw x \<longrightarrow>
      getCompilationErrors E this page = Threw x) \<and>
   (or_else (clientError this) (serverError this) = None \<and>
    (\<forall>st. clientStats this = Some st \<longrightarrow> \<not> hasErrors st) \<and>
    serverStats this = Some sst \<and> hasErrors sst \<and>
    attributedErrors E sst (normalizePathSep E page) = Threw x \<longrightarrow>
      getCompilationErrors E this page = Threw x)"
  (is "(?f \<longrightarrow> ?F) \<and> (?c \<longrightarrow> ?C) \<and> (?s \<longrightarrow> ?S) \<and> (?n \<longrightarrow> ?N) \<and> (?ct \<longrightarrow> ?T)
      \<and> (?st \<longrightarrow> _)")
proof (intro conjI impI)
  assume ?f then show ?F by (simp add: getCompilationErrors_def Let_def)
next
  assume ?c then show ?C
    by (simp add: getCompilationErrors_def Let_def errorsOfStats_attributed)
next
  assume ?s then show ?S
    by (cases "clientStats this")
       (simp_all add: getCompilationErrors_def Let_def errorsOfStats_attributed)
next
  assume ?n then show ?N
    by (cases "clientStats this"; cases "serverStats this")
       (simp_all add: getCompilationErrors_def Let_def)
next
  assume ?ct then show ?T
    by (simp add: getCompilationErrors_def Let_def errorsOfStats_throws)
next
  assume ?st then show ?T
    by (cases "clientStats this")
       (simp_all add: getCompilationErrors_def Let_def errorsOfStats_throws)
qed

theorem getCompilationErrors_priority_witness:
  "getCompilationErrors example_env failing_reloader ''/a'' = Returned [example_error ''boom'' None] \<and>
   getCompilationErrors example_env both_targets_failing ''/a''
     = Returned [example_error ''client error in a'' (Some 1)] \<and>
   getCompilationErrors example_env
     (both_targets_failing\<lparr>clientStats := Some (document_stats ''h'')\<rparr>) ''/b''
     = Returned [example_error ''server error in b'' (Some 1)] \<and>
   getCompilationErrors example_env (constructed False False) ''/a'' = Returned [] \<and>
   getCompilationErrors example_env cyclic_reloader ''/about'' = Threw RangeError"
proof -
  let ?server_only = "both_targets_failing\<lparr>clientStats := Some (document_stats ''h'')\<rparr>"
  have att_a: "attributedErrors example_env (page_error_stats ''pages/a'' ''client error in a'')
      (normalizePathSep example_env ''/a'') = Returned [example_error ''client error in a'' (Some 1)]"
    by (simp add: attributedErrors_def erroredPages_def page_error_stats_def example_error_def
        findEntryModule_numeral example_env_def example_denormalize_def)
  have att_b: "attributedErrors example_env (page_error_stats ''pages/b'' ''server error in b'')
      (normalizePathSep example_env ''/b'') = Returned [example_error ''server error in b'' (Some 1)]"
    by (simp add: attributedErrors_def erroredPages_def page_error_stats_def example_error_def
        findEntryModule_numeral example_env_def example_denormalize_def)
  have w1: "getCompilationErrors example_env failing_reloader ''/a''
      = Returned [example_error ''boom'' None]"
    using getCompilationErrors_priority
      [of failing_reloader "example_error ''boom'' None" example_env "''/a''"]
    by (simp add: failing_reloader_def constructed_def or_else_def)
  have w2: "getCompilationErrors example_env both_targets_failing ''/a''
     = Returned [example_error ''client error in a'' (Some 1)]"
    using getCompilationErrors_priority
      [of both_targets_failing _ example_env "''/a''"
          "page_error_stats ''pages/a'' ''client error in a''"
          "[example_error ''client error in a'' (Some 1)]"]
      att_a
    by (simp add: both_targets_failing_def constructed_def or_else_def page_error_stats_def)
  have w3: "getCompilationErrors example_env ?server_only ''/b''
     = Returned [example_error ''server error in b'' (Some 1)]"
    using getCompilationErrors_priority
      [of ?server_only _ example_env "''/b''" _
          "[example_error ''server error in b'' (Some 1)]"
          "page_error_stats ''pages/b'' ''server error in b''"]
      att_b
    by (simp add: both_targets_failing_def constructed_def or_else_def page_error_stats_def
        document_stats_def)
  have w4: "getCompilationErrors example_env (constructed False False) ''/a'' = Returned []"
    using getCompilationErrors_priority[of "constructed False False" _ example_env "''/a''"]
    by (simp add: constructed_def or_else_def)
  have att_c: "attributedErrors example_env
      \<lparr>stats_compilation = cyclic_compilation, hasErrors = True\<rparr>
      (normalizePathSep example_env ''/about'') = Threw RangeError"
    by (simp add: attributedErrors_def cyclic_compilation_pages)
  have w5: "getCompilationErrors example_env cyclic_reloader ''/about'' = Threw RangeError"
    using getCompilationErrors_priority
      [of cyclic_reloader _ example_env "''/about''"
          "\<lparr>stats_compilation = cyclic_compilation, hasErrors = True\<rparr>" _ _ RangeError]
      att_c
    by (simp add: cyclic_reloader_def constructed_def or_else_def)
  from w1 w2 w3 w4 w5 show ?thesis by simp
qed

text \<open>
  The claim as stated puts the page's own errors before any full list. With a client
  error of the page \<^verbatim>\<open>/a\<close> and a server error of the page \<^verbatim>\<open>/b\<close>, the errors
  attributed to \<^verbatim>\<open>/b\<close> are not empty, yet a request for \<^verbatim>\<open>/b\<close> gets the client's full
  list, the error of \<^verbatim>\<open>/a\<close>.
\<close>

theorem getCompilationErrors_client_first_counterexample:
  "attributedErrors example_env (page_error_stats ''pages/b'' ''server error in b'') ''/b''
     = Returned [example_error ''server error in b'' (Some 1)] \<and>
   getCompilationErrors example_env both_targets_failing ''/b''
     = Returned [example_error ''client error in a'' (Some 1)]"
proof -
  have a: "attributedErrors example_env (page_error_stats ''pages/b'' ''server error in b'') ''/b''
     = Returned [example_error ''server error in b'' (Some 1)]"
    by (simp add: attributedErrors_def erroredPages_def page_error_stats_def example_error_def
        findEntryModule_numeral example_env_def example_denormalize_def)
  have b: "attributedErrors example_env (page_error_stats ''pages/a'' ''client error in a'') ''/b''
     = Returned []"
    by (simp add: attributedErrors_def erroredPages_def page_error_stats_def example_error_def
        findEntryModule_numeral example_env_def example_denormalize_def)
  have "getCompilationErrors example_env both_targets_failing ''/b''
     = Returned (errors (stats_compilation (page_error_stats ''pages/a'' ''client error in a'')))"
    using errorsOfStats_attributed[OF b]
    by (simp add: getCompilationErrors_def both_targets_failing_def constructed_def or_else_def
        Let_def example_env_def page_error_stats_def)
  with a show ?thesis by (simp add: page_error_stats_def)
qed

subsection \<open>Page changes between passes\<close>

lemma set_fold_set_add: "set (fold set_add xs acc) = set xs \<union> set acc"
  by (induction xs arbitrary: acc) (auto simp: set_add_def)

lemma set_new_Set: "set (new_Set xs) = set xs"
  by (simp add: new_Set_def set_fold_set_add)

lemma set_diff: "set (diff a b) = set a - set b"
  by (auto simp: diff_def set_new_Set)

lemma published_fold_send:
  "published (fold (\<lambda>x t. send t (Str a) [f x]) xs t) = published t @ map (\<lambda>x. Action a [f x]) xs"
  by (induction xs arbitrary: t) (simp_all add: send_def)

lemma clientDone_published:
  "published (clientDone E this st) =
     published this @
     (case prevChunkNames this of
        None \<Rightarrow> []
      | Some prev \<Rightarrow>
          map (\<lambda>p. Action ''addedPage'' [getRouteFromEntrypoint E p]) (diff (routeChunkNames E st) prev) @
          map (\<lambda>p. Action ''removedPage'' [getRouteFromEntrypoint E p]) (diff prev (routeChunkNames E st)))"
  by (simp add: clientDone_def Let_def published_fold_send routeChunkNames_def split: option.splits)

lemma clientDone_prevChunkNames:
  "prevChunkNames (clientDone E this st) = Some (routeChunkNames E st)"
  by (simp add: clientDone_def Let_def routeChunkNames_def)

lemma trackChunks_no_match:
  "filter (\<lambda>c. chunk_id c = key) cs = [] \<Longrightarrow> trackChunks key cs m ch = (m, ch)"
  by (induction cs) (auto split: if_splits)

lemma trackChunks_one:
  "length (filter (\<lambda>c. chunk_id c = key) cs) \<le> 1 \<Longrightarrow>
   trackChunks key cs m ch =
     (case find (\<lambda>c. chunk_id c = key) cs of
        None \<Rightarrow> (m, ch)
      | Some c \<Rightarrow>
          (m(key \<mapsto> chunk_hash c),
           if truthy (getHash m key) \<and> getHash m key \<noteq> chunk_hash c
           then set_add key ch else ch))"
proof (induction cs)
  case Nil
  show ?case by simp
next
  case (Cons c cs)
  show ?case
  proof (cases "chunk_id c = key")
    case True
    with Cons.prems have "filter (\<lambda>c. chunk_id c = key) cs = []" by simp
    from trackChunks_no_match[OF this] True show ?thesis by (simp add: Let_def)
  next
    case False
    with Cons show ?thesis by simp
  qed
qed

lemma pageChunk_Cons:
  "pageChunk ((key, chunks) # rest) k =
     (if k = key
      then (if prefix ''pages/'' key then find (\<lambda>c. chunk_id c = key) chunks else None)
      else pageChunk rest k)"
  by (simp add: pageChunk_def)

lemma pageChunk_not_key:
  "k \<notin> fst ` set eps \<Longrightarrow> pageChunk eps k = None"
proof -
  assume "k \<notin> fst ` set eps"
  then have "map_of eps k = None" by (simp add: map_of_eq_None_iff)
  then show ?thesis by (simp add: pageChunk_def)
qed

lemma trackPageChanges_wf:
  assumes "distinct (map fst eps)"
    and "list_all (\<lambda>kc. length (filter (\<lambda>c. chunk_id c = fst kc) (snd kc)) \<le> 1) eps"
  shows "(\<forall>k. fst (trackPageChanges m ch eps) k =
            (case pageChunk eps k of None \<Rightarrow> m k | Some c \<Rightarrow> Some (chunk_hash c))) \<and>
         set (snd (trackPageChanges m ch eps)) =
           set ch \<union> {k. \<exists>c. pageChunk eps k = Some c \<and> truthy (getHash m k) \<and>
                             getHash m k \<noteq> chunk_hash c}"
  using assms
proof (induction eps arbitrary: m ch)
  case Nil
  show ?case by (simp add: pageChunk_def)
next
  case (Cons kc rest)
  obtain key chunks where kc: "kc = (key, chunks)" by (cases kc)
  from Cons.prems kc have fresh: "key \<notin> fst ` set rest" and d: "distinct (map fst rest)"
    and one: "length (filter (\<lambda>c. chunk_id c = key) chunks) \<le> 1"
    and rest: "list_all (\<lambda>kc. length (filter (\<lambda>c. chunk_id c = fst kc) (snd kc)) \<le> 1) rest"
    by auto
  have none: "pageChunk rest key = None" by (rule pageChunk_not_key[OF fresh])
  show ?case
  proof (cases "prefix ''pages/'' key")
    case False
    have step: "trackPageChanges m ch (kc # rest) = trackPageChanges m ch rest"
      using False kc by simp
    have pc: "pageChunk (kc # rest) k = pageChunk rest k" for k
      using False none kc by (simp add: pageChunk_Cons)
    show ?thesis unfolding step pc using Cons.IH[OF d rest, of m ch] by simp
  next
    case True
    obtain m1 ch1 where tc: "trackChunks key chunks m ch = (m1, ch1)"
      by (cases "trackChunks key chunks m ch")
    have step: "trackPageChanges m ch (kc # rest) = trackPageChanges m1 ch1 rest"
      using True kc tc by simp
    note IH = Cons.IH[OF d rest, of m1 ch1]
    show ?thesis
    proof (cases "find (\<lambda>c. chunk_id c = key) chunks")
      case None
      with trackChunks_one[OF one, of m ch] tc have eq: "m1 = m" "ch1 = ch" by simp_all
      have pc: "pageChunk (kc # rest) k = pageChunk rest k" for k
        using None none kc by (simp add: pageChunk_Cons)
      show ?thesis unfolding step pc eq using Cons.IH[OF d rest, of m ch] by simp
    next
      case (Some c)
      with trackChunks_one[OF one, of m ch] tc
      have m1: "m1 = m(key \<mapsto> chunk_hash c)"
        and ch1: "ch1 = (if truthy (getHash m key) \<and> getHash m key \<noteq> chunk_hash c
                         then set_add key ch else ch)" by simp_all
      have pc: "pageChunk (kc # rest) k = (if k = key then Some c else pageChunk rest k)" for k
        using Some True kc by (simp add: pageChunk_Cons)
      have gh: "k \<noteq> key \<Longrightarrow> getHash m1 k = getHash m k" for k
        by (simp add: getHash_def m1)
      have maps: "\<forall>k. fst (trackPageChanges m1 ch1 rest) k =
            (case pageChunk (kc # rest) k of None \<Rightarrow> m k | Some c \<Rightarrow> Some (chunk_hash c))"
      proof
        fix k
        from IH have ih: "fst (trackPageChanges m1 ch1 rest) k =
            (case pageChunk rest k of None \<Rightarrow> m1 k | Some c \<Rightarrow> Some (chunk_hash c))"
          by blast
        show "fst (trackPageChanges m1 ch1 rest) k =
            (case pageChunk (kc # rest) k of None \<Rightarrow> m k | Some c \<Rightarrow> Some (chunk_hash c))"
        proof (cases "k = key")
          case True
          then show ?thesis unfolding ih pc using none by (simp add: m1)
        next
          case False
          then show ?thesis unfolding ih pc by (simp add: m1 split: option.splits)
        qed
      qed
      have "set (snd (trackPageChanges m1 ch1 rest)) =
          set ch1 \<union> {k. \<exists>c. pageChunk rest k = Some c \<and> truthy (getHash m1 k) \<and>
                             getHash m1 k \<noteq> chunk_hash c}"
        using IH by simp
      also have "{k. \<exists>c. pageChunk rest k = Some c \<and> truthy (getHash m1 k) \<and>
                             getHash m1 k \<noteq> chunk_hash c} =
                 {k. k \<noteq> key \<and> (\<exists>c. pageChunk rest k = Some c \<and> truthy (getHash m k) \<and>
                             getHash m k \<noteq> chunk_hash c)}"
      proof -
        have "pageChunk rest k = Some c' \<Longrightarrow> k \<noteq> key" for k c'
          using none by auto
        then show ?thesis using gh by (metis (no_types, lifting))
      qed
      also have "set ch1 \<union> \<dots> =
          set ch \<union> {k. \<exists>c. pageChunk (kc # rest) k = Some c \<and> truthy (getHash m k) \<and>
                             getHash m k \<noteq> chunk_hash c}"
        by (auto simp: pc ch1 set_add_def)
      finally show ?thesis unfolding step using maps by simp
    qed
  qed
qed

text \<open>
  Claim C2, as amended. \<open>trackPageChanges\<close> marks a key as changed exactly when the key
  is a page entry of the new pass with a chunk of its own, a non-empty hash is
  retained for the key, and that hash differs from the chunk's hash; it then retains
  the new hash. The retained hash is the last one recorded for the key in any earlier
  pass: the map is never pruned. The client's done hook publishes \<^verbatim>\<open>addedPage\<close> for the
  route chunk names of this pass that the previous pass did not have and
  \<^verbatim>\<open>removedPage\<close> for those of the previous pass that this pass does not have; these
  two sets are differences of sets, and disjoint. A page that was removed and comes
  back with another hash is both added and changed.
\<close>

theorem page_changes_between_passes:
  "(wellFormedEntrypoints eps \<longrightarrow>
      (key \<in> set (snd (trackPageChanges pageHashMap changedItems eps)) \<longleftrightarrow>
         key \<in> set changedItems \<or>
         (\<exists>c. pageChunk eps key = Some c \<and> truthy (getHash pageHashMap key) \<and>
              getHash pageHashMap key \<noteq> chunk_hash c)) \<and>
      fst (trackPageChanges pageHashMap changedItems eps) key =
        (case pageChunk eps key of
           None \<Rightarrow> pageHashMap key
         | Some c \<Rightarrow> Some (chunk_hash c))) \<and>
   newlyPublished this (clientDone E this st) =
     (case prevChunkNames this of
        None \<Rightarrow> []
      | Some prev \<Rightarrow>
          map (\<lambda>p. Action ''addedPage'' [getRouteFromEntrypoint E p])
            (diff (routeChunkNames E st) prev) @
          map (\<lambda>p. Action ''removedPage'' [getRouteFromEntrypoint E p])
            (diff prev (routeChunkNames E st))) \<and>
   prevChunkNames (clientDone E this st) = Some (routeChunkNames E st) \<and>
   set (diff a b) = set a - set b \<and>
   set (diff a b) \<inter> set (diff b a) = {}"
  (is "(?wf \<longrightarrow> ?changed \<and> ?hashes) \<and> ?published \<and> ?names \<and> ?diff \<and> ?disjoint")
proof (intro conjI impI)
  assume ?wf
  then have d: "distinct (map fst eps)"
    and o: "list_all (\<lambda>kc. length (filter (\<lambda>c. chunk_id c = fst kc) (snd kc)) \<le> 1) eps"
    by (simp_all add: wellFormedEntrypoints_def)
  note t = trackPageChanges_wf[OF d o, of pageHashMap changedItems]
  from t show ?changed by blast
  from t show ?hashes by blast
next
  show ?published by (simp add: newlyPublished_def clientDone_published)
  show ?names by (rule clientDone_prevChunkNames)
  show ?diff by (rule set_diff)
  show ?disjoint by (auto simp: set_diff)
qed

theorem page_changes_between_passes_witness:
  "wellFormedEntrypoints (entrypoints (page_compilation [(''pages/a'', ''h2''), (''pages/c'', ''hc'')])) \<and>
   ''pages/a'' \<in> set (snd (trackPageChanges [''pages/a'' \<mapsto> Some ''h1'', ''pages/b'' \<mapsto> Some ''hb''] []
      (entrypoints (page_compilation [(''pages/a'', ''h2''), (''pages/c'', ''hc'')])))) \<and>
   ''pages/c'' \<notin> set (snd (trackPageChanges [''pages/a'' \<mapsto> Some ''h1'', ''pages/b'' \<mapsto> Some ''hb''] []
      (entrypoints (page_compilation [(''pages/a'', ''h2''), (''pages/c'', ''hc'')])))) \<and>
   newlyPublished (constructed False False\<lparr>prevChunkNames := Some [''pages/a'', ''pages/b'']\<rparr>)
     (clientDone example_env (constructed False False\<lparr>prevChunkNames := Some [''pages/a'', ''pages/b'']\<rparr>)
        \<lparr>stats_compilation = page_compilation [(''pages/a'', ''h2''), (''pages/c'', ''hc'')],
         hasErrors = False\<rparr>)
     = [Action ''addedPage'' [Some ''/c''], Action ''removedPage'' [Some ''/b'']]"
proof -
  let ?eps = "entrypoints (page_compilation [(''pages/a'', ''h2''), (''pages/c'', ''hc'')])"
  let ?m = "[''pages/a'' \<mapsto> Some ''h1'', ''pages/b'' \<mapsto> Some ''hb'']"
  let ?hr = "constructed False False\<lparr>prevChunkNames := Some [''pages/a'', ''pages/b'']\<rparr>"
  let ?st = "\<lparr>stats_compilation = page_compilation [(''pages/a'', ''h2''), (''pages/c'', ''hc'')],
         hasErrors = False\<rparr>"
  have wf: "wellFormedEntrypoints ?eps"
    by (simp add: wellFormedEntrypoints_def page_compilation_def)
  have pa: "pageChunk ?eps ''pages/a'' = Some \<lparr>chunk_id = ''pages/a'', chunk_hash = Some ''h2''\<rparr>"
    by (simp add: pageChunk_def page_compilation_def)
  have pc: "pageChunk ?eps ''pages/c'' = Some \<lparr>chunk_id = ''pages/c'', chunk_hash = Some ''hc''\<rparr>"
    by (simp add: pageChunk_def page_compilation_def)
  have ga: "getHash ?m ''pages/a'' = Some ''h1''" and gc: "getHash ?m ''pages/c'' = None"
    by (simp_all add: getHash_def)
  have names: "routeChunkNames example_env ?st = [''pages/a'', ''pages/c'']"
    by (simp add: routeChunkNames_def page_compilation_def example_env_def truthy_def
        new_Set_def set_add_def example_denormalize_def)
  have a: "''pages/a'' \<in> set (snd (trackPageChanges ?m [] ?eps))"
    using page_changes_between_passes[of ?eps "''pages/a''" ?m "[]"] wf pa ga
    by (simp add: truthy_def)
  have c: "''pages/c'' \<notin> set (snd (trackPageChanges ?m [] ?eps))"
    using page_changes_between_passes[of ?eps "''pages/c''" ?m "[]"] wf pc gc
    by (simp add: truthy_def)
  have p: "newlyPublished ?hr (clientDone example_env ?hr ?st)
     = [Action ''addedPage'' [Some ''/c''], Action ''removedPage'' [Some ''/b'']]"
  proof -
    have "newlyPublished ?hr (clientDone example_env ?hr ?st) =
        map (\<lambda>p. Action ''addedPage'' [getRouteFromEntrypoint example_env p])
          (diff (routeChunkNames example_env ?st) [''pages/a'', ''pages/b'']) @
        map (\<lambda>p. Action ''removedPage'' [getRouteFromEntrypoint example_env p])
          (diff [''pages/a'', ''pages/b''] (routeChunkNames example_env ?st))"
      using page_changes_between_passes[of "[]" "[]" Map.empty "[]" ?hr example_env ?st]
      by (simp add: constructed_def)
    then show ?thesis
      unfolding names
      by (simp add: diff_def new_Set_def set_add_def example_env_def example_denormalize_def)
  qed
  from wf a c p show ?thesis by simp
qed

text \<open>
  The claim as stated fails over three client passes: the pages \<^verbatim>\<open>a\<close> and \<^verbatim>\<open>b\<close>, then
  \<^verbatim>\<open>b\<close> alone, then \<^verbatim>\<open>a\<close> with another hash and \<^verbatim>\<open>b\<close>. In the third pass the key
  \<^verbatim>\<open>pages/a\<close> is not in the snapshot of the previous pass, yet it is marked as
  changed, and it is also published as added.
\<close>

theorem readded_page_counterexample:
  "changedClientPages
     (clientPass example_env
        (multiDone example_env
           (clientPass example_env
              (multiDone example_env
                 (clientPass example_env (constructed False False)
                    (page_compilation [(''pages/a'', ''h1''), (''pages/b'', ''hb'')])))
              (page_compilation [(''pages/b'', ''hb'')])))
        (page_compilation [(''pages/a'', ''h2''), (''pages/b'', ''hb'')]))
     = [''pages/a''] \<and>
   newlyPublished
     (multiDone example_env
        (clientPass example_env
           (multiDone example_env
              (clientPass example_env (constructed False False)
                 (page_compilation [(''pages/a'', ''h1''), (''pages/b'', ''hb'')])))
           (page_compilation [(''pages/b'', ''hb'')])))
     (clientPass example_env
        (multiDone example_env
           (clientPass example_env
              (multiDone example_env
                 (clientPass example_env (constructed False False)
                    (page_compilation [(''pages/a'', ''h1''), (''pages/b'', ''hb'')])))
              (page_compilation [(''pages/b'', ''hb'')])))
        (page_compilation [(''pages/a'', ''h2''), (''pages/b'', ''hb'')]))
     = [Action ''addedPage'' [Some ''/a'']]"
  by (simp add: clientPass_def clientDone_def clientEmit_def multiDone_def page_compilation_def
      constructed_def newlyPublished_def send_def diff_def difference_def new_Set_def set_add_def
      getHash_def truthy_def example_env_def example_denormalize_def Let_def)

subsection \<open>The entry map of a compilation\<close>





















subsection \<open>The fallback compilation\<close>

text \<open>
  A call of \<open>buildFallbackError\<close> that is awaited before the next one is made builds the
  fallback compiler only if no watcher is set, and sets the watcher: such calls are
  idempotent and build at most one compiler.
\<close>

lemma buildFallbackError_awaited:
  "buildFallbackError this =
     (if fallbackWatcher this then this
      else this\<lparr>fallbackCompilers := fallbackCompilers this + 1, fallbackWatcher := True\<rparr>)"
  by (simp add: buildFallbackError_def buildFallbackError_enter_def)

lemma buildFallbackError_awaited_idempotent:
  "buildFallbackError (buildFallbackError this) = buildFallbackError this"
  by (simp add: buildFallbackError_awaited)

lemma buildFallbackError_awaited_calls:
  "fallbackRun [Call, Resume (length calls), Resume (length calls)] (calls, this)
     = (calls @ [Settled], buildFallbackError this)"
  by (simp add: fallbackRun_def buildFallbackError_def buildFallbackError_enter_def)

lemma buildFallbackError_awaited_watcher:
  "fallbackWatcher (buildFallbackError this)"
  by (simp add: buildFallbackError_awaited)

lemma buildFallbackError_awaited_once:
  "fallbackCompilers ((buildFallbackError ^^ n) this) =
     fallbackCompilers this + (if 0 < n \<and> \<not> fallbackWatcher this then 1 else 0)"
proof (induction n)
  case 0
  show ?case by simp
next
  case (Suc n)
  define t where "t = (buildFallbackError ^^ n) this"
  have step: "(buildFallbackError ^^ Suc n) this = buildFallbackError t"
    by (simp add: t_def)
  show ?case
  proof (cases n)
    case 0
    then have "t = this" by (simp add: t_def)
    then show ?thesis unfolding step by (simp add: buildFallbackError_awaited)
  next
    case (Suc m)
    then have "t = buildFallbackError ((buildFallbackError ^^ m) this)" by (simp add: t_def)
    then have "fallbackWatcher t" by (simp only: buildFallbackError_awaited_watcher)
    then have "buildFallbackError t = t" by (simp add: buildFallbackError_awaited)
    then show ?thesis unfolding step using Suc.IH Suc by (simp add: t_def)
  qed
qed

text \<open>
  Claim C9 on two calls that overlap. The watcher is set only when the first callback of
  the compiler arrives, two awaits after the test. A second call made before that finds
  no watcher either, and both calls construct and start a fallback compiler.
\<close>

theorem buildFallbackError_overlapping_calls:
  "fallbackRun [Call, Call, Resume 0, Resume 1, Resume 0, Resume 1] ([], constructed False False)
     = ([Settled, Settled],
        (constructed False False)\<lparr>fallbackCompilers := 2, fallbackWatcher := True\<rparr>)"
  by (simp add: fallbackRun_def buildFallbackError_enter_def constructed_def)

end
